theory Spec2Isabelle
  imports Complex_Main
begin

section \<open>The unified annotation store\<close>

text \<open>
  The converter of \<^verbatim>\<open>interactive_converter.py\<close> keeps three lists of dictionaries
  (categories, images, annotations), the dictionary \<^verbatim>\<open>cat2id\<close> and three counters.
  A dictionary with fixed keys is a record here; the key \<^verbatim>\<open>id\<close> carries the record's
  prefix. A bbox is always built as the four-element list \<^verbatim>\<open>[x, y, w, h]\<close>, so it is
  a quadruple. Python integers are unbounded: \<open>int\<close>.
\<close>

type_synonym bbox = "int \<times> int \<times> int \<times> int"

record unified_category =
  cat_id :: int
  cat_name :: string

record unified_image =
  img_file_name :: string
  img_id :: int
  img_width :: int
  img_height :: int

record unified_annotation =
  ann_id :: int
  ann_image_id :: int
  ann_category_id :: int
  ann_bbox :: bbox
  ann_area :: int

record store =
  categories :: "unified_category list"
  images :: "unified_image list"
  annotations :: "unified_annotation list"
  cat2id :: "string \<rightharpoonup> int"
  img_count :: int
  cat_count :: int
  ann_count :: int

definition reset :: store where
  "reset = \<lparr>categories = [], images = [], annotations = [], cat2id = Map.empty,
     img_count = 0, cat_count = 0, ann_count = 0\<rparr>"

section \<open>The quality filter\<close>

text \<open>
  \<^verbatim>\<open>_check_and_filter_small_boxes\<close> collects the annotations whose
  \<^verbatim>\<open>bbox[2] * bbox[3]\<close> is strictly below the threshold. It returns at once when the
  annotation list is empty or when nothing was collected; otherwise it hands the
  collected boxes to \<^verbatim>\<open>_remove_small_boxes\<close>.
\<close>

definition box_area :: "unified_annotation \<Rightarrow> int" where
  "box_area a = (case ann_bbox a of (x, y, w, h) \<Rightarrow> w * h)"

definition small_boxes :: "int \<Rightarrow> unified_annotation list \<Rightarrow> unified_annotation list" where
  "small_boxes area_threshold anns = filter (\<lambda>a. box_area a < area_threshold) anns"

text \<open>
  \<^verbatim>\<open>remove_ann_ids\<close> is the set of the collected boxes' ids; an annotation stays when
  its id is not in that set.
\<close>

definition valid_annotations ::
  "unified_annotation list \<Rightarrow> unified_annotation list \<Rightarrow> unified_annotation list" where
  "valid_annotations boxes anns = filter (\<lambda>a. ann_id a \<notin> set (map ann_id boxes)) anns"

text \<open>\<^verbatim>\<open>image_ann_count\<close>: a \<^verbatim>\<open>defaultdict(int)\<close> bumped once for each remaining annotation.\<close>

fun image_ann_count :: "unified_annotation list \<Rightarrow> (int \<rightharpoonup> nat) \<Rightarrow> (int \<rightharpoonup> nat)" where
  "image_ann_count [] cnt = cnt"
| "image_ann_count (a # anns) cnt =
     image_ann_count anns
       (cnt(ann_image_id a \<mapsto> (case cnt (ann_image_id a) of None \<Rightarrow> 1 | Some c \<Rightarrow> Suc c)))"

text \<open>
  The loop over \<^verbatim>\<open>self.images\<close>: an image whose id is a key of the count is given the
  id \<^verbatim>\<open>len(valid_images) + 1\<close>, recorded in \<^verbatim>\<open>image_id_map\<close> under its old id and
  appended; any other image is left out.
\<close>

fun renumber_images ::
  "(int \<rightharpoonup> nat) \<Rightarrow> unified_image list \<Rightarrow> unified_image list \<Rightarrow> (int \<rightharpoonup> int)
     \<Rightarrow> unified_image list \<times> (int \<rightharpoonup> int)" where
  "renumber_images cnt [] valid_images image_id_map = (valid_images, image_id_map)"
| "renumber_images cnt (img # imgs) valid_images image_id_map =
     (if cnt (img_id img) \<noteq> None then
        (let new_id = int (length valid_images) + 1
         in renumber_images cnt imgs (valid_images @ [img\<lparr>img_id := new_id\<rparr>])
              (image_id_map(img_id img \<mapsto> new_id)))
      else renumber_images cnt imgs valid_images image_id_map)"

text \<open>
  The loop over the remaining annotations: one whose \<^verbatim>\<open>image_id\<close> is a key of the map
  gets the mapped image id and the id \<^verbatim>\<open>len(updated_annotations) + 1\<close>.
\<close>

fun renumber_annotations ::
  "(int \<rightharpoonup> int) \<Rightarrow> unified_annotation list \<Rightarrow> unified_annotation list
     \<Rightarrow> unified_annotation list" where
  "renumber_annotations image_id_map [] updated = updated"
| "renumber_annotations image_id_map (a # anns) updated =
     (case image_id_map (ann_image_id a) of
        Some new_image_id \<Rightarrow>
          renumber_annotations image_id_map anns
            (updated @ [a\<lparr>ann_image_id := new_image_id, ann_id := int (length updated) + 1\<rparr>])
      | None \<Rightarrow> renumber_annotations image_id_map anns updated)"

definition remove_small_boxes :: "unified_annotation list \<Rightarrow> int \<Rightarrow> store \<Rightarrow> store" where
  "remove_small_boxes boxes area_threshold s =
     (let valid = valid_annotations boxes (annotations s);
          cnt = image_ann_count valid Map.empty;
          (valid_images, image_id_map) = renumber_images cnt (images s) [] Map.empty;
          updated = renumber_annotations image_id_map valid []
      in s\<lparr>images := valid_images, annotations := updated\<rparr>)"

definition check_and_filter_small_boxes :: "int \<Rightarrow> store \<Rightarrow> store" where
  "check_and_filter_small_boxes area_threshold s =
     (if annotations s = [] then s
      else (let boxes = small_boxes area_threshold (annotations s)
            in if boxes = [] then s else remove_small_boxes boxes area_threshold s))"

text \<open>
  Names for what the removal computes on a store: the annotations that outlive the id
  filter, the images kept (those an outliving annotation refers to) and the old-to-new
  image id map.
\<close>

definition outliving :: "int \<Rightarrow> store \<Rightarrow> unified_annotation list" where
  "outliving area_threshold s =
     valid_annotations (small_boxes area_threshold (annotations s)) (annotations s)"

definition kept_images :: "int \<Rightarrow> store \<Rightarrow> unified_image list" where
  "kept_images area_threshold s =
     filter (\<lambda>i. img_id i \<in> set (map ann_image_id (outliving area_threshold s))) (images s)"

definition old_to_new :: "int \<Rightarrow> store \<Rightarrow> (int \<rightharpoonup> int)" where
  "old_to_new area_threshold s =
     snd (renumber_images (image_ann_count (outliving area_threshold s) Map.empty)
            (images s) [] Map.empty)"

subsection \<open>Two stores to run the filter on\<close>

text \<open>
  \<open>store_small\<close>: three images (the third one without any annotation, as
  \<^verbatim>\<open>include_unmatched_images\<close> adds them) and three annotations, two of them below the
  default threshold 25. \<open>store_large\<close>: two images, the second one without annotation,
  and one annotation of area 800.
\<close>

definition store_small :: store where
  "store_small = reset\<lparr>
     images := [\<lparr>img_file_name = ''a.jpg'', img_id = 0, img_width = 100, img_height = 200\<rparr>,
                \<lparr>img_file_name = ''b.jpg'', img_id = 1, img_width = 100, img_height = 200\<rparr>,
                \<lparr>img_file_name = ''c.jpg'', img_id = 2, img_width = 100, img_height = 200\<rparr>],
     annotations := [\<lparr>ann_id = 0, ann_image_id = 0, ann_category_id = 0, ann_bbox = (0, 0, 4, 4), ann_area = 16\<rparr>,
                     \<lparr>ann_id = 1, ann_image_id = 1, ann_category_id = 0, ann_bbox = (10, 10, 20, 40), ann_area = 800\<rparr>,
                     \<lparr>ann_id = 2, ann_image_id = 1, ann_category_id = 0, ann_bbox = (1, 1, 2, 2), ann_area = 4\<rparr>],
     img_count := 3, ann_count := 3\<rparr>"

definition store_large :: store where
  "store_large = reset\<lparr>
     images := [\<lparr>img_file_name = ''a.jpg'', img_id = 0, img_width = 100, img_height = 200\<rparr>,
                \<lparr>img_file_name = ''b.jpg'', img_id = 1, img_width = 100, img_height = 200\<rparr>],
     annotations := [\<lparr>ann_id = 0, ann_image_id = 0, ann_category_id = 0, ann_bbox = (10, 10, 20, 40), ann_area = 800\<rparr>],
     img_count := 2, ann_count := 1\<rparr>"

section \<open>Python values the parsers work on\<close>

subsection \<open>Strings\<close>

text \<open>
  \<^verbatim>\<open>str.split()\<close> without argument splits at runs of white space and drops empty
  pieces; \<^verbatim>\<open>str.strip()\<close> removes white space at both ends. Characters are bytes here, so
  white space is the ASCII white space of \<^verbatim>\<open>str.isspace\<close>.
\<close>

definition is_space :: "char \<Rightarrow> bool" where
  "is_space c = (of_char c \<in> {9, 10, 11, 12, 13, 28, 29, 30, 31, 32 :: nat})"

definition strip :: "string \<Rightarrow> string" where
  "strip s = rev (dropWhile is_space (rev (dropWhile is_space s)))"

fun split_acc :: "string \<Rightarrow> string \<Rightarrow> string list" where
  "split_acc cur [] = (if cur = [] then [] else [cur])"
| "split_acc cur (c # cs) =
     (if is_space c then (if cur = [] then split_acc [] cs else cur # split_acc [] cs)
      else split_acc (cur @ [c]) cs)"

definition split_ws :: "string \<Rightarrow> string list" where
  "split_ws s = split_acc [] s"

text \<open>\<^verbatim>\<open>str(n)\<close> for an integer, as the f-string \<^verbatim>\<open>f"class_{class_id}"\<close> prints it.\<close>

definition digit_char :: "nat \<Rightarrow> char" where
  "digit_char d = char_of (48 + d)"

fun str_nat :: "nat \<Rightarrow> string" where
  "str_nat n = (if n < 10 then [digit_char n] else str_nat (n div 10) @ [digit_char (n mod 10)])"

definition str_int :: "int \<Rightarrow> string" where
  "str_int i = (if i < 0 then CHR ''-'' # str_nat (nat (- i)) else str_nat (nat i))"

subsection \<open>Floats\<close>

text \<open>
  A Python float is a finite number, an infinity or NaN. A finite float is taken as the
  rational number it denotes and arithmetic on finite floats is exact (the rounding of
  binary floating point is not part of the model). \<^verbatim>\<open>int(f)\<close> truncates towards zero,
  and raises \<^verbatim>\<open>ValueError\<close> on NaN and \<^verbatim>\<open>OverflowError\<close> on an infinity; so does
  \<^verbatim>\<open>round(f)\<close>, which rounds a tie to the even neighbour.
\<close>

datatype pyfloat = Fin rat | PInf | NInf | NaN

datatype py_error = ValueError | OverflowError | IndexError | IOError

definition py_trunc :: "rat \<Rightarrow> int" where
  "py_trunc r = (if 0 \<le> r then \<lfloor>r\<rfloor> else \<lceil>r\<rceil>)"


fun int_of_float :: "pyfloat \<Rightarrow> py_error + int" where
  "int_of_float (Fin r) = Inr (py_trunc r)"
| "int_of_float NaN = Inl ValueError"
| "int_of_float PInf = Inl OverflowError"
| "int_of_float NInf = Inl OverflowError"


text \<open>\<^verbatim>\<open>f * n\<close> for an integer \<^verbatim>\<open>n\<close>, \<^verbatim>\<open>f / 2\<close> and \<^verbatim>\<open>f - g\<close>.\<close>

fun fmul_int :: "pyfloat \<Rightarrow> int \<Rightarrow> pyfloat" where
  "fmul_int (Fin r) n = Fin (r * of_int n)"
| "fmul_int NaN n = NaN"
| "fmul_int PInf n = (if n = 0 then NaN else if 0 < n then PInf else NInf)"
| "fmul_int NInf n = (if n = 0 then NaN else if 0 < n then NInf else PInf)"

fun fhalf :: "pyfloat \<Rightarrow> pyfloat" where
  "fhalf (Fin r) = Fin (r / 2)"
| "fhalf f = f"

fun fsub :: "pyfloat \<Rightarrow> pyfloat \<Rightarrow> pyfloat" where
  "fsub (Fin a) (Fin b) = Fin (a - b)"
| "fsub NaN g = NaN"
| "fsub f NaN = NaN"
| "fsub PInf PInf = NaN"
| "fsub NInf NInf = NaN"
| "fsub PInf g = PInf"
| "fsub NInf g = NInf"
| "fsub (Fin a) PInf = NInf"
| "fsub (Fin a) NInf = PInf"

subsection \<open>Reading numbers\<close>

text \<open>
  \<^verbatim>\<open>int(token)\<close> and \<^verbatim>\<open>float(token)\<close> are Python's own; the parsers below take them as
  the parameters \<open>to_int\<close> and \<open>to_float\<close> (\<open>None\<close> when the builtin raises
  \<^verbatim>\<open>ValueError\<close>). \<open>dec_int\<close> and \<open>dec_float\<close> read plain decimal tokens as the builtins
  do: an optional sign, digits, and for a float an optional fraction or one of the
  words \<^verbatim>\<open>inf\<close> and \<^verbatim>\<open>nan\<close>.
\<close>

type_synonym int_reader = "string \<Rightarrow> int option"
type_synonym float_reader = "string \<Rightarrow> pyfloat option"

definition is_digit :: "char \<Rightarrow> bool" where
  "is_digit c = (48 \<le> (of_char c :: nat) \<and> (of_char c :: nat) \<le> 57)"

definition digits_value :: "string \<Rightarrow> nat" where
  "digits_value ds = foldl (\<lambda>a c. 10 * a + (of_char c - 48)) 0 ds"

definition dec_nat :: "string \<Rightarrow> nat option" where
  "dec_nat ds = (if ds \<noteq> [] \<and> list_all is_digit ds then Some (digits_value ds) else None)"

definition dec_int :: int_reader where
  "dec_int t =
     (case t of
        c # ds \<Rightarrow>
          (if c = CHR ''-'' then map_option (\<lambda>n. - int n) (dec_nat ds)
           else if c = CHR ''+'' then map_option int (dec_nat ds)
           else map_option int (dec_nat t))
      | [] \<Rightarrow> None)"

definition dec_unsigned :: "string \<Rightarrow> rat option" where
  "dec_unsigned t =
     (let whole = takeWhile (\<lambda>c. c \<noteq> CHR ''.'') t;
          frac = drop (Suc (length whole)) t
      in if (whole \<noteq> [] \<or> frac \<noteq> []) \<and> list_all is_digit whole \<and> list_all is_digit frac
         then Some (of_nat (digits_value whole) + of_nat (digits_value frac) / 10 ^ length frac)
         else None)"

definition dec_magnitude :: "string \<Rightarrow> pyfloat option" where
  "dec_magnitude t =
     (if t = ''inf'' then Some PInf else if t = ''nan'' then Some NaN
      else map_option Fin (dec_unsigned t))"

fun fneg :: "pyfloat \<Rightarrow> pyfloat" where
  "fneg (Fin r) = Fin (- r)"
| "fneg PInf = NInf"
| "fneg NInf = PInf"
| "fneg NaN = NaN"

definition dec_float :: float_reader where
  "dec_float t =
     (case t of
        c # ds \<Rightarrow>
          (if c = CHR ''-'' then map_option fneg (dec_magnitude ds)
           else if c = CHR ''+'' then dec_magnitude ds
           else dec_magnitude t)
      | [] \<Rightarrow> None)"

section \<open>Building the store\<close>

text \<open>
  Every parser ends with the same two steps for a box it has read: make sure the
  category exists (a name that is not a key of \<^verbatim>\<open>cat2id\<close> gets the id
  \<^verbatim>\<open>cat_count\<close>), then append the annotation with the id \<^verbatim>\<open>ann_count\<close>. The lookup
  \<^verbatim>\<open>self.cat2id[category_name]\<close> raises \<^verbatim>\<open>KeyError\<close> on a missing key; the parsers catch
  it with the entry's other errors, which leaves the store as the first step made it.
\<close>

definition register_category :: "string \<Rightarrow> store \<Rightarrow> store" where
  "register_category category_name s =
     (if cat2id s category_name = None then
        s\<lparr>cat2id := (cat2id s)(category_name \<mapsto> cat_count s),
          categories := categories s @ [\<lparr>cat_id = cat_count s, cat_name = category_name\<rparr>],
          cat_count := cat_count s + 1\<rparr>
      else s)"

definition append_annotation :: "int \<Rightarrow> string \<Rightarrow> bbox \<Rightarrow> store \<Rightarrow> store" where
  "append_annotation img category_name b s =
     (case cat2id s category_name of
        None \<Rightarrow> s
      | Some category \<Rightarrow>
          (case b of (x, y, w, h) \<Rightarrow>
             s\<lparr>annotations := annotations s @
                  [\<lparr>ann_id = ann_count s, ann_image_id = img, ann_category_id = category,
                    ann_bbox = b, ann_area = w * h\<rparr>],
               ann_count := ann_count s + 1\<rparr>))"

definition add_annotation :: "int \<Rightarrow> string \<times> bbox \<Rightarrow> store \<Rightarrow> store" where
  "add_annotation img entry s =
     append_annotation img (fst entry) (snd entry) (register_category (fst entry) s)"

text \<open>
  A parser's loop: each entry of the file either yields a category name and a box, or
  is skipped (\<open>None\<close>).
\<close>

fun add_entries :: "int \<Rightarrow> (string \<times> bbox) option list \<Rightarrow> store \<Rightarrow> store" where
  "add_entries img [] s = s"
| "add_entries img (None # es) s = add_entries img es s"
| "add_entries img (Some e # es) s = add_entries img es (add_annotation img e s)"

subsection \<open>YOLO\<close>

text \<open>
  One line of a YOLO file: skipped unless it has exactly five tokens. Inside the
  \<^verbatim>\<open>try\<close>, the class id and the four floats are read, scaled by the img size and
  turned into \<^verbatim>\<open>[x, y, w, h]\<close> with \<^verbatim>\<open>int()\<close>. The handler is \<^verbatim>\<open>except ValueError\<close>: a
  \<^verbatim>\<open>ValueError\<close> skips the line, an \<^verbatim>\<open>OverflowError\<close> leaves the function.
\<close>

definition yolo_bbox :: "pyfloat \<Rightarrow> pyfloat \<Rightarrow> pyfloat \<Rightarrow> pyfloat \<Rightarrow> int \<Rightarrow> int \<Rightarrow> py_error + bbox" where
  "yolo_bbox fx fy fw fh img_w img_h =
     (let x_center = fmul_int fx img_w;
          y_center = fmul_int fy img_h;
          w = fmul_int fw img_w;
          h = fmul_int fh img_h
      in case int_of_float (fsub x_center (fhalf w)) of
           Inl e \<Rightarrow> Inl e
         | Inr x \<Rightarrow>
             (case int_of_float (fsub y_center (fhalf h)) of
                Inl e \<Rightarrow> Inl e
              | Inr y \<Rightarrow>
                  (case int_of_float w of
                     Inl e \<Rightarrow> Inl e
                   | Inr w' \<Rightarrow>
                       (case int_of_float h of
                          Inl e \<Rightarrow> Inl e
                        | Inr h' \<Rightarrow> Inr (x, y, w', h')))))"

definition yolo_category :: "(int \<rightharpoonup> string) \<Rightarrow> int \<Rightarrow> string" where
  "yolo_category class_mapping class_id =
     (case class_mapping class_id of
        Some name \<Rightarrow> name
      | None \<Rightarrow> ''class_'' @ str_int class_id)"

definition yolo_try ::
  "int_reader \<Rightarrow> float_reader \<Rightarrow> int \<Rightarrow> int \<Rightarrow> (int \<rightharpoonup> string) \<Rightarrow> string list
     \<Rightarrow> py_error + (string \<times> bbox)" where
  "yolo_try to_int to_float img_w img_h class_mapping parts =
     (case parts of
        [p0, p1, p2, p3, p4] \<Rightarrow>
          (case to_int p0 of
             None \<Rightarrow> Inl ValueError
           | Some class_id \<Rightarrow>
               (case (to_float p1, to_float p2, to_float p3, to_float p4) of
                  (Some fx, Some fy, Some fw, Some fh) \<Rightarrow>
                    (case yolo_bbox fx fy fw fh img_w img_h of
                       Inl e \<Rightarrow> Inl e
                     | Inr b \<Rightarrow> Inr (yolo_category class_mapping class_id, b))
                | _ \<Rightarrow> Inl ValueError))
      | _ \<Rightarrow> Inl ValueError)"

definition yolo_line ::
  "int_reader \<Rightarrow> float_reader \<Rightarrow> int \<Rightarrow> int \<Rightarrow> (int \<rightharpoonup> string) \<Rightarrow> string
     \<Rightarrow> py_error + (string \<times> bbox) option" where
  "yolo_line to_int to_float img_w img_h class_mapping line =
     (let line' = strip line in
      if line' = [] then Inr None
      else (let parts = split_ws line' in
            if length parts \<noteq> 5 then Inr None
            else (case yolo_try to_int to_float img_w img_h class_mapping parts of
                    Inr entry \<Rightarrow> Inr (Some entry)
                  | Inl e \<Rightarrow> if e = ValueError then Inr None else Inl e)))"

text \<open>
  \<^verbatim>\<open>_process_yolo_file\<close> on the lines of the file. An error that leaves the function
  keeps what the earlier lines added; the result carries the store and the error.
\<close>

fun process_yolo_file ::
  "int_reader \<Rightarrow> float_reader \<Rightarrow> string list \<Rightarrow> int \<Rightarrow> int \<Rightarrow> int \<Rightarrow> (int \<rightharpoonup> string)
     \<Rightarrow> store \<Rightarrow> store \<times> py_error option" where
  "process_yolo_file to_int to_float [] img img_w img_h class_mapping s = (s, None)"
| "process_yolo_file to_int to_float (line # lines) img img_w img_h class_mapping s =
     (case yolo_line to_int to_float img_w img_h class_mapping line of
        Inl e \<Rightarrow> (s, Some e)
      | Inr None \<Rightarrow> process_yolo_file to_int to_float lines img img_w img_h class_mapping s
      | Inr (Some entry) \<Rightarrow>
          process_yolo_file to_int to_float lines img img_w img_h class_mapping
            (add_annotation img entry s))"

subsection \<open>The deepest tag of an hk entry\<close>

text \<open>
  An hk entry is a node with a \<^verbatim>\<open>tagName\<close> (the empty string when the key is absent)
  and a list of \<^verbatim>\<open>children\<close> (empty when absent). \<^verbatim>\<open>find_deepest_tag\<close> computes the tag
  of every child, keeps the non-empty ones and returns the first of them, or the
  node's own \<^verbatim>\<open>tagName\<close> when there are no children or none of them has a tag.
\<close>

datatype hk_node = HkNode (tagName: string) (children: "hk_node list")

fun find_deepest_tag :: "hk_node \<Rightarrow> string" where
  "find_deepest_tag (HkNode tag cs) =
     (if cs = [] then tag
      else (case filter (\<lambda>t. t \<noteq> []) (map find_deepest_tag cs) of
              [] \<Rightarrow> tag
            | t # ts \<Rightarrow> t))"

text \<open>
  The resolution as the specification words it: descend depth-first, child by child,
  and stop at the first branch that yields a non-empty tag; fall back to the node's
  own tag.
\<close>

fun first_branch_tag :: "hk_node \<Rightarrow> string"
  and first_branch_of :: "hk_node list \<Rightarrow> string option" where
  "first_branch_tag (HkNode tag cs) =
     (case first_branch_of cs of None \<Rightarrow> tag | Some t \<Rightarrow> t)"
| "first_branch_of [] = None"
| "first_branch_of (c # cs) =
     (if first_branch_tag c \<noteq> [] then Some (first_branch_tag c) else first_branch_of cs)"

definition hk_example :: hk_node where
  "hk_example =
     HkNode ''vehicle''
       [HkNode [] [HkNode [] []],
        HkNode ''car'' [HkNode ''sedan'' [], HkNode ''coupe'' []],
        HkNode ''truck'' []]"

section \<open>The cropper's box expansion\<close>




section \<open>Polygon lines of the segmentation pathway\<close>








section \<open>Matching annotation files with image files\<close>

subsection \<open>File names\<close>

text \<open>
  \<^verbatim>\<open>str.lower\<close> on ASCII letters, \<^verbatim>\<open>str.endswith\<close>, \<^verbatim>\<open>os.path.basename\<close> and the first
  component of \<^verbatim>\<open>os.path.splitext\<close> (POSIX): the extension starts at the last dot of
  the last path component, unless only dots stand before it.
\<close>

definition lower_char :: "char \<Rightarrow> char" where
  "lower_char c =
     (if 65 \<le> (of_char c :: nat) \<and> (of_char c :: nat) \<le> 90 then char_of (of_char c + 32 :: nat) else c)"

definition lower :: "string \<Rightarrow> string" where
  "lower s = map lower_char s"

definition endswith :: "string \<Rightarrow> string \<Rightarrow> bool" where
  "endswith s suffix = (length suffix \<le> length s \<and> drop (length s - length suffix) s = suffix)"

definition basename :: "string \<Rightarrow> string" where
  "basename p = rev (takeWhile (\<lambda>c. c \<noteq> CHR ''/'') (rev p))"

definition splitext_root :: "string \<Rightarrow> string" where
  "splitext_root p =
     (let name = basename p;
          ext_len = length (takeWhile (\<lambda>c. c \<noteq> CHR ''.'') (rev name))
      in if CHR ''.'' \<notin> set name then p
         else if list_ex (\<lambda>c. c \<noteq> CHR ''.'') (take (length name - ext_len - 1) name)
              then take (length p - ext_len - 1) p
              else p)"

subsection \<open>The directories\<close>

text \<open>
  The two directories are given by their listings (\<^verbatim>\<open>os.listdir\<close>). For the JSON
  formats the matcher opens each annotation file and reads one key from it:
  \<^verbatim>\<open>data['image']['file_name']\<close> (absent: \<open>None\<close>), \<^verbatim>\<open>data.get('imagePath', '')\<close> or
  \<^verbatim>\<open>data.get('imgName', '')\<close>. A file that cannot be opened or decoded is
  \<open>Unreadable\<close>.
\<close>

datatype format_type = Yolo | Voc | CocoSingle | Labelme | Hk | UnknownFormat

datatype match_json =
  Unreadable
  | MatchJson (image_file_name: "string option") (imagePath: string) (imgName: string)

type_synonym match_result = "(string \<times> string) list \<times> string list \<times> string list"

definition is_image_file :: "string \<Rightarrow> bool" where
  "is_image_file f =
     (endswith (lower f) ''.jpg'' \<or> endswith (lower f) ''.jpeg''
      \<or> endswith (lower f) ''.png'' \<or> endswith (lower f) ''.bmp'')"

definition annotation_candidates :: "format_type \<Rightarrow> string list \<Rightarrow> string list" where
  "annotation_candidates format listing =
     (case format of
        Yolo \<Rightarrow> filter (\<lambda>f. endswith f ''.txt'' \<and> f \<noteq> ''classes.txt'') listing
      | Voc \<Rightarrow> filter (\<lambda>f. endswith f ''.xml'') listing
      | CocoSingle \<Rightarrow> filter (\<lambda>f. endswith f ''.json'') listing
      | Labelme \<Rightarrow> filter (\<lambda>f. endswith f ''.json'') listing
      | Hk \<Rightarrow> filter (\<lambda>f. endswith f ''.json'') listing
      | UnknownFormat \<Rightarrow> [])"

text \<open>
  The two searches: the base name with each of the four extensions in order, first hit
  wins; and the first image whose base name equals the given one up to case.
\<close>

definition find_by_extension :: "string \<Rightarrow> string list \<Rightarrow> string option" where
  "find_by_extension base_name image_files =
     find (\<lambda>img_name. img_name \<in> set image_files)
       (map (\<lambda>ext. base_name @ ext) [''.jpg'', ''.jpeg'', ''.png'', ''.bmp''])"

definition find_by_base_name :: "string \<Rightarrow> string list \<Rightarrow> string option" where
  "find_by_base_name base_name image_files =
     find (\<lambda>img_file. lower (splitext_root img_file) = lower base_name) image_files"

text \<open>
  The image name an annotation file resolves to, for the formats that open the file.
  \<open>None\<close> is Python's \<^verbatim>\<open>None\<close>; the empty string is falsy as well.
\<close>

definition coco_image_name :: "match_json \<Rightarrow> string \<Rightarrow> string list \<Rightarrow> string option" where
  "coco_image_name data ann_file image_files =
     (case image_file_name data of
        Some file_name \<Rightarrow> Some file_name
      | None \<Rightarrow> find_by_extension (splitext_root ann_file) image_files)"

definition path_image_name :: "string \<Rightarrow> string \<Rightarrow> string list \<Rightarrow> string option" where
  "path_image_name image_path ann_file image_files =
     (let img_name =
            (if image_path \<noteq> [] then
               (let img_filename = basename image_path
                in if img_filename \<in> set image_files then Some img_filename
                   else find_by_base_name (splitext_root img_filename) image_files)
             else None)
      in if img_name = None \<or> img_name = Some [] then
           (case find_by_base_name (splitext_root ann_file) image_files of
              Some img_file \<Rightarrow> Some img_file
            | None \<Rightarrow> img_name)
         else img_name)"

text \<open>
  One turn of the loop over the annotation files. A match appends the pair and then
  calls \<^verbatim>\<open>unmatched_images.remove\<close>, which raises \<^verbatim>\<open>ValueError\<close> when the image is no
  longer in the list. For \<^verbatim>\<open>yolo\<close> and \<^verbatim>\<open>voc\<close> nothing catches the error; for the JSON
  formats the handler around the turn appends the annotation file to
  \<^verbatim>\<open>unmatched_annotations\<close>, after the pair has been appended.
\<close>

definition take_image :: "string \<Rightarrow> string \<Rightarrow> match_result \<Rightarrow> py_error + match_result" where
  "take_image ann_file img_name r =
     (case r of (matched_pairs, unmatched_annotations, unmatched_images) \<Rightarrow>
        if img_name \<in> set unmatched_images
        then Inr (matched_pairs @ [(ann_file, img_name)], unmatched_annotations,
                  remove1 img_name unmatched_images)
        else Inl ValueError)"

definition leave_annotation :: "string \<Rightarrow> match_result \<Rightarrow> match_result" where
  "leave_annotation ann_file r =
     (case r of (matched_pairs, unmatched_annotations, unmatched_images) \<Rightarrow>
        (matched_pairs, unmatched_annotations @ [ann_file], unmatched_images))"

definition take_image_caught :: "string \<Rightarrow> string \<Rightarrow> match_result \<Rightarrow> match_result" where
  "take_image_caught ann_file img_name r =
     (case take_image ann_file img_name r of
        Inr r' \<Rightarrow> r'
      | Inl e \<Rightarrow>
          (case r of (matched_pairs, unmatched_annotations, unmatched_images) \<Rightarrow>
             (matched_pairs @ [(ann_file, img_name)], unmatched_annotations @ [ann_file],
              unmatched_images)))"

definition match_json_file ::
  "string option \<Rightarrow> string list \<Rightarrow> string \<Rightarrow> match_result \<Rightarrow> match_result" where
  "match_json_file img_name image_files ann_file r =
     (case img_name of
        Some n \<Rightarrow>
          if n \<noteq> [] \<and> n \<in> set image_files then take_image_caught ann_file n r
          else leave_annotation ann_file r
      | None \<Rightarrow> leave_annotation ann_file r)"

definition match_file ::
  "format_type \<Rightarrow> (string \<Rightarrow> match_json) \<Rightarrow> string list \<Rightarrow> string \<Rightarrow> match_result
     \<Rightarrow> py_error + match_result" where
  "match_file format read_json image_files ann_file r =
     (case format of
        Yolo \<Rightarrow>
          (case find_by_extension (splitext_root ann_file) image_files of
             Some matched_img \<Rightarrow> take_image ann_file matched_img r
           | None \<Rightarrow> Inr (leave_annotation ann_file r))
      | Voc \<Rightarrow>
          (case find_by_extension (splitext_root ann_file) image_files of
             Some matched_img \<Rightarrow> take_image ann_file matched_img r
           | None \<Rightarrow> Inr (leave_annotation ann_file r))
      | CocoSingle \<Rightarrow>
          (case read_json ann_file of
             Unreadable \<Rightarrow> Inr (leave_annotation ann_file r)
           | MatchJson file_name image_path img_path \<Rightarrow>
               Inr (match_json_file
                      (coco_image_name (MatchJson file_name image_path img_path) ann_file image_files)
                      image_files ann_file r))
      | Labelme \<Rightarrow>
          (case read_json ann_file of
             Unreadable \<Rightarrow> Inr (leave_annotation ann_file r)
           | MatchJson file_name image_path img_path \<Rightarrow>
               Inr (match_json_file (path_image_name image_path ann_file image_files)
                      image_files ann_file r))
      | Hk \<Rightarrow>
          (case read_json ann_file of
             Unreadable \<Rightarrow> Inr (leave_annotation ann_file r)
           | MatchJson file_name image_path img_path \<Rightarrow>
               Inr (match_json_file (path_image_name img_path ann_file image_files)
                      image_files ann_file r))
      | UnknownFormat \<Rightarrow> Inr r)"

fun match_loop ::
  "format_type \<Rightarrow> (string \<Rightarrow> match_json) \<Rightarrow> string list \<Rightarrow> string list \<Rightarrow> match_result
     \<Rightarrow> py_error + match_result" where
  "match_loop format read_json image_files [] r = Inr r"
| "match_loop format read_json image_files (ann_file # ann_files) r =
     (case match_file format read_json image_files ann_file r of
        Inl e \<Rightarrow> Inl e
      | Inr r' \<Rightarrow> match_loop format read_json image_files ann_files r')"

definition match_files ::
  "string list \<Rightarrow> string list \<Rightarrow> (string \<Rightarrow> match_json) \<Rightarrow> format_type
     \<Rightarrow> py_error + match_result" where
  "match_files annotation_listing image_listing read_json format =
     (let image_files = filter is_image_file image_listing;
          annotation_files = annotation_candidates format annotation_listing
      in match_loop format read_json image_files annotation_files ([], [], image_files))"

text \<open>
  Two LabelMe files that name the same image, and two YOLO files with the same base
  name.
\<close>

definition same_image_json :: "string \<Rightarrow> match_json" where
  "same_image_json f = MatchJson None ''photos/x.jpg'' []"

subsection \<open>VOC, single-image COCO, LabelMe and hk\<close>

text \<open>
  The other four parsers work on a decoded file (XML objects, JSON entries), given
  here at the types the formats prescribe; an entry that makes the parser raise is
  skipped, and a file that cannot be decoded adds nothing (\<open>None\<close>). \<^verbatim>\<open>int(float(t))\<close>
  and \<^verbatim>\<open>int(v)\<close> for a JSON number fail on NaN and the infinities.
\<close>

definition int_of_text :: "float_reader \<Rightarrow> string \<Rightarrow> int option" where
  "int_of_text to_float t =
     (case to_float t of
        None \<Rightarrow> None
      | Some f \<Rightarrow> (case int_of_float f of Inl e \<Rightarrow> None | Inr i \<Rightarrow> Some i))"

datatype jnum = JInt int | JFloat pyfloat

fun int_of_jnum :: "jnum \<Rightarrow> int option" where
  "int_of_jnum (JInt i) = Some i"
| "int_of_jnum (JFloat f) = (case int_of_float f of Inl e \<Rightarrow> None | Inr i \<Rightarrow> Some i)"

text \<open>
  A VOC \<^verbatim>\<open>object\<close>: the text of its \<^verbatim>\<open>name\<close> and the texts of \<^verbatim>\<open>xmin\<close>, \<^verbatim>\<open>ymin\<close>,
  \<^verbatim>\<open>xmax\<close>, \<^verbatim>\<open>ymax\<close> under \<^verbatim>\<open>bndbox\<close> (\<open>None\<close> where an element is missing).
\<close>

record voc_object =
  vo_name :: "string option"
  vo_bndbox :: "(string \<times> string \<times> string \<times> string) option"

definition voc_object_box :: "float_reader \<Rightarrow> voc_object \<Rightarrow> (string \<times> bbox) option" where
  "voc_object_box to_float obj =
     (case vo_name obj of
        None \<Rightarrow> None
      | Some category_name \<Rightarrow>
          (case vo_bndbox obj of
             None \<Rightarrow> None
           | Some (t1, t2, t3, t4) \<Rightarrow>
               (case (int_of_text to_float t1, int_of_text to_float t2,
                      int_of_text to_float t3, int_of_text to_float t4) of
                  (Some xmin, Some ymin, Some xmax, Some ymax) \<Rightarrow>
                    Some (category_name, (xmin, ymin, xmax - xmin, ymax - ymin))
                | _ \<Rightarrow> None)))"

definition process_voc_file :: "float_reader \<Rightarrow> voc_object list option \<Rightarrow> int \<Rightarrow> store \<Rightarrow> store" where
  "process_voc_file to_float file img s =
     (case file of
        None \<Rightarrow> s
      | Some objects \<Rightarrow> add_entries img (map (voc_object_box to_float) objects) s)"

text \<open>
  An entry of \<^verbatim>\<open>annotations\<close> in a single-image COCO file: \<^verbatim>\<open>category_name\<close>,
  \<^verbatim>\<open>category_id\<close> (default 0) and \<^verbatim>\<open>bbox\<close> (default \<^verbatim>\<open>[]\<close>).
\<close>

record coco_annotation =
  ca_category_name :: "string option"
  ca_category_id :: "int option"
  ca_bbox :: "jnum list"

definition coco_annotation_box :: "coco_annotation \<Rightarrow> (string \<times> bbox) option" where
  "coco_annotation_box ann =
     (let synthetic = ''class_'' @ str_int (case ca_category_id ann of None \<Rightarrow> 0 | Some i \<Rightarrow> i);
          category_name =
            (case ca_category_name ann of
               None \<Rightarrow> synthetic
             | Some n \<Rightarrow> if n = [] then synthetic else n)
      in case ca_bbox ann of
           [b0, b1, b2, b3] \<Rightarrow>
             (case (int_of_jnum b0, int_of_jnum b1, int_of_jnum b2, int_of_jnum b3) of
                (Some x, Some y, Some w, Some h) \<Rightarrow> Some (category_name, (x, y, w, h))
              | _ \<Rightarrow> None)
         | _ \<Rightarrow> None)"

definition process_coco_single_file :: "coco_annotation list option \<Rightarrow> int \<Rightarrow> store \<Rightarrow> store" where
  "process_coco_single_file file img s =
     (case file of
        None \<Rightarrow> s
      | Some anns \<Rightarrow> add_entries img (map coco_annotation_box anns) s)"

text \<open>A LabelMe shape: its \<^verbatim>\<open>label\<close> and its \<^verbatim>\<open>points\<close>.\<close>

record labelme_shape =
  sh_label :: "string option"
  sh_points :: "jnum list list"

definition corner_box :: "int \<Rightarrow> int \<Rightarrow> int \<Rightarrow> int \<Rightarrow> bbox" where
  "corner_box x1 y1 x2 y2 =
     (min x1 x2, min y1 y2, max x1 x2 - min x1 x2, max y1 y2 - min y1 y2)"

definition labelme_shape_box :: "labelme_shape \<Rightarrow> (string \<times> bbox) option" where
  "labelme_shape_box shape =
     (case sh_label shape of
        None \<Rightarrow> None
      | Some category_name \<Rightarrow>
          if category_name = [] then None
          else (case sh_points shape of
                  [[a1, b1], [a2, b2]] \<Rightarrow>
                    (case (int_of_jnum a1, int_of_jnum b1, int_of_jnum a2, int_of_jnum b2) of
                       (Some x1, Some y1, Some x2, Some y2) \<Rightarrow>
                         Some (category_name, corner_box x1 y1 x2 y2)
                     | _ \<Rightarrow> None)
                | _ \<Rightarrow> None))"

definition process_labelme_file :: "labelme_shape list option \<Rightarrow> int \<Rightarrow> store \<Rightarrow> store" where
  "process_labelme_file file img s =
     (case file of
        None \<Rightarrow> s
      | Some shapes \<Rightarrow> add_entries img (map labelme_shape_box shapes) s)"

text \<open>
  An entry of \<^verbatim>\<open>list\<close> in an hk file: the tag node and \<^verbatim>\<open>tagInfo\<close>, a string holding
  a JSON array. \<open>NoTagInfo\<close> is the absent or empty string, \<open>BadTagInfo\<close> a string
  that does not decode to a list, and \<open>TagInfo\<close> the decoded list: for each element
  its \<^verbatim>\<open>coord\<close> array (empty when absent) of points with their \<^verbatim>\<open>x\<close> and \<^verbatim>\<open>y\<close>
  (\<open>None\<close> where the key is missing), taken as integers.
\<close>

datatype hk_tag_info =
  NoTagInfo
  | BadTagInfo
  | TagInfo "(int option \<times> int option) list list"

record hk_annotation =
  he_node :: hk_node
  he_tagInfo :: hk_tag_info

definition hk_annotation_box :: "hk_annotation \<Rightarrow> (string \<times> bbox) option" where
  "hk_annotation_box ann =
     (let category_name = find_deepest_tag (he_node ann)
      in if category_name = [] then None
         else (case he_tagInfo ann of
                 TagInfo (coords # others) \<Rightarrow>
                   (case coords of
                      [(Some x1, Some y1), (Some x2, Some y2)] \<Rightarrow>
                        Some (category_name, corner_box x1 y1 x2 y2)
                    | _ \<Rightarrow> None)
               | _ \<Rightarrow> None))"

definition process_hk_file :: "hk_annotation list option \<Rightarrow> int \<Rightarrow> store \<Rightarrow> store" where
  "process_hk_file file img s =
     (case file of
        None \<Rightarrow> s
      | Some anns \<Rightarrow> add_entries img (map hk_annotation_box anns) s)"

subsection \<open>The conversion pathway\<close>

text \<open>
  What the pathway reads from outside: the two builtins that read numbers, the size of
  an image file (\<open>None\<close> when \<^verbatim>\<open>Image.open\<close> raises) and the content of an annotation
  file as its format's parser sees it.
\<close>

datatype annotation_file =
  YoloFile "string list"
  | VocFile "voc_object list option"
  | CocoFile "coco_annotation list option"
  | LabelmeFile "labelme_shape list option"
  | HkFile "hk_annotation list option"
  | OtherFile

record world =
  w_int :: int_reader
  w_float :: float_reader
  w_image_size :: "string \<Rightarrow> (int \<times> int) option"
  w_annotation :: "string \<Rightarrow> annotation_file"

text \<open>
  \<^verbatim>\<open>_process_file_pair\<close>: the image is appended with the id \<^verbatim>\<open>img_count\<close> before its
  annotation file is parsed. When the image cannot be opened nothing is appended.
\<close>

definition process_file_pair ::
  "world \<Rightarrow> (int \<rightharpoonup> string) \<Rightarrow> string \<Rightarrow> string \<Rightarrow> store \<Rightarrow> store \<times> py_error option" where
  "process_file_pair fs class_mapping ann_file img_file s =
     (case w_image_size fs img_file of
        None \<Rightarrow> (s, Some IOError)
      | Some (img_w, img_h) \<Rightarrow>
          (let current_img_id = img_count s;
               s1 = s\<lparr>images := images s @
                        [\<lparr>img_file_name = img_file, img_id = img_count s,
                          img_width = img_w, img_height = img_h\<rparr>],
                      img_count := img_count s + 1\<rparr>
           in case w_annotation fs ann_file of
                YoloFile lines \<Rightarrow>
                  process_yolo_file (w_int fs) (w_float fs) lines current_img_id img_w img_h
                    class_mapping s1
              | VocFile file \<Rightarrow> (process_voc_file (w_float fs) file current_img_id s1, None)
              | CocoFile file \<Rightarrow> (process_coco_single_file file current_img_id s1, None)
              | LabelmeFile file \<Rightarrow> (process_labelme_file file current_img_id s1, None)
              | HkFile file \<Rightarrow> (process_hk_file file current_img_id s1, None)
              | OtherFile \<Rightarrow> (s1, None)))"

text \<open>
  The loop of \<^verbatim>\<open>convert_to_coco\<close> over the matched pairs: an error of a pair is printed
  and the loop goes on with what the pair has added so far.
\<close>

fun process_pairs ::
  "world \<Rightarrow> (int \<rightharpoonup> string) \<Rightarrow> (string \<times> string) list \<Rightarrow> store \<Rightarrow> store" where
  "process_pairs fs class_mapping [] s = s"
| "process_pairs fs class_mapping ((ann_file, img_file) # matched_pairs) s =
     process_pairs fs class_mapping matched_pairs
       (fst (process_file_pair fs class_mapping ann_file img_file s))"

fun add_unmatched_images :: "world \<Rightarrow> string list \<Rightarrow> store \<Rightarrow> store" where
  "add_unmatched_images fs [] s = s"
| "add_unmatched_images fs (img_file # unmatched_images) s =
     (case w_image_size fs img_file of
        None \<Rightarrow> add_unmatched_images fs unmatched_images s
      | Some (img_w, img_h) \<Rightarrow>
          add_unmatched_images fs unmatched_images
            (s\<lparr>images := images s @
                  [\<lparr>img_file_name = img_file, img_id = img_count s,
                    img_width = img_w, img_height = img_h\<rparr>],
               img_count := img_count s + 1\<rparr>))"

text \<open>
  The stages of the pathway after the matching: the store after the matched pairs,
  after the optional unmatched images, and after the quality check of
  \<^verbatim>\<open>_save_coco\<close>. \<^verbatim>\<open>convert_to_coco\<close> returns \<^verbatim>\<open>False\<close> (\<open>None\<close>) when nothing matched.
\<close>

definition with_unmatched :: "world \<Rightarrow> bool \<Rightarrow> string list \<Rightarrow> store \<Rightarrow> store" where
  "with_unmatched fs include_unmatched_images unmatched_images s =
     (if include_unmatched_images \<and> unmatched_images \<noteq> []
      then add_unmatched_images fs unmatched_images s else s)"

definition convert_matched ::
  "world \<Rightarrow> (int \<rightharpoonup> string) \<Rightarrow> bool \<Rightarrow> int \<Rightarrow> match_result \<Rightarrow> store option" where
  "convert_matched fs class_mapping include_unmatched_images area_threshold r =
     (case r of (matched_pairs, unmatched_annotations, unmatched_images) \<Rightarrow>
        if matched_pairs = [] then None
        else Some (check_and_filter_small_boxes area_threshold
                     (with_unmatched fs include_unmatched_images unmatched_images
                        (process_pairs fs class_mapping matched_pairs reset))))"

definition convert_to_coco ::
  "world \<Rightarrow> string list \<Rightarrow> string list \<Rightarrow> (string \<Rightarrow> match_json) \<Rightarrow> format_type
     \<Rightarrow> (int \<rightharpoonup> string) \<Rightarrow> bool \<Rightarrow> int \<Rightarrow> py_error + store option" where
  "convert_to_coco fs annotation_listing image_listing read_json format class_mapping
       include_unmatched_images area_threshold =
     (case match_files annotation_listing image_listing read_json format of
        Inl e \<Rightarrow> Inl e
      | Inr r \<Rightarrow> Inr (convert_matched fs class_mapping include_unmatched_images area_threshold r))"

text \<open>The invariants of the store.\<close>

definition references_ok :: "store \<Rightarrow> bool" where
  "references_ok s =
     list_all (\<lambda>a. ann_image_id a \<in> set (map img_id (images s))) (annotations s)"

definition first_seen :: "'a list \<Rightarrow> 'a list" where
  "first_seen xs = rev (remdups (rev xs))"

definition category_names :: "store \<Rightarrow> string list" where
  "category_names s = map cat_name (categories s)"

definition annotation_names :: "store \<Rightarrow> string list" where
  "annotation_names s =
     map (\<lambda>a. cat_name (categories s ! nat (ann_category_id a))) (annotations s)"

text \<open>A small directory: one YOLO file with three lines and one image.\<close>

definition demo_world :: world where
  "demo_world = \<lparr>w_int = dec_int, w_float = dec_float,
     w_image_size = (\<lambda>f. if f = ''a.jpg'' \<or> f = ''c.jpg'' then Some (100, 200) else None),
     w_annotation = (\<lambda>f. if f = ''a.txt''
        then YoloFile [''1 0.5 0.5 0.2 0.4'', ''0 0.5 0.5 0.02 0.01'', ''1 0.25 0.25 0.1 0.1'']
        else OtherFile)\<rparr>"

text \<open>
  The category list as a table from names to ids, and what the registration keeps
  true of a store.
\<close>

definition cat_table :: "store \<Rightarrow> (string \<times> int) list" where
  "cat_table s = map (\<lambda>c. (cat_name c, cat_id c)) (categories s)"

definition categories_ok :: "store \<Rightarrow> bool" where
  "categories_ok s =
     (cat_count s = int (length (categories s))
      \<and> map cat_id (categories s) = map int [0..<length (categories s)]
      \<and> distinct (category_names s)
      \<and> cat2id s = map_of (cat_table s)
      \<and> list_all (\<lambda>a. 0 \<le> ann_category_id a \<and> ann_category_id a < cat_count s) (annotations s)
      \<and> category_names s = first_seen (annotation_names s))"

section \<open>Properties of the quality filter\<close>

lemma dom_image_ann_count:
  "dom (image_ann_count anns cnt) = dom cnt \<union> set (map ann_image_id anns)"
  by (induction anns arbitrary: cnt) auto

lemma counted_iff:
  "(\<exists>c. image_ann_count anns Map.empty k = Some c) = (k \<in> ann_image_id ` set anns)"
  using dom_image_ann_count [of anns Map.empty] by (auto simp: dom_def)

lemma fst_renumber_images:
  "fst (renumber_images cnt imgs valid m) =
     valid @ map (\<lambda>(j, i). i\<lparr>img_id := int j + 1\<rparr>)
               (enumerate (length valid) (filter (\<lambda>i. cnt (img_id i) \<noteq> None) imgs))"
  by (induction imgs arbitrary: valid m) (auto simp: Let_def)

lemma dom_snd_renumber_images:
  "dom (snd (renumber_images cnt imgs valid m)) =
     dom m \<union> set (map img_id (filter (\<lambda>i. cnt (img_id i) \<noteq> None) imgs))"
  by (induction imgs arbitrary: valid m) (auto simp: Let_def)

lemma snd_renumber_images_other:
  "k \<notin> set (map img_id imgs) \<Longrightarrow> snd (renumber_images cnt imgs valid m) k = m k"
  by (induction imgs arbitrary: valid m) (auto simp: Let_def)

lemma snd_renumber_images_distinct:
  "distinct (map img_id imgs) \<Longrightarrow> j < length (filter (\<lambda>i. cnt (img_id i) \<noteq> None) imgs) \<Longrightarrow>
     snd (renumber_images cnt imgs valid m) (img_id (filter (\<lambda>i. cnt (img_id i) \<noteq> None) imgs ! j))
       = Some (int (length valid + j) + 1)"
proof (induction imgs arbitrary: valid m j)
  case Nil
  then show ?case by simp
next
  case (Cons img imgs)
  show ?case
  proof (cases "cnt (img_id img) \<noteq> None")
    case False
    with Cons show ?thesis by simp
  next
    case True
    show ?thesis
    proof (cases j)
      case 0
      with True Cons.prems show ?thesis
        by (simp add: Let_def snd_renumber_images_other)
    next
      case (Suc j')
      with True Cons.prems Cons.IH [of j' "valid @ [img\<lparr>img_id := int (length valid) + 1\<rparr>]"]
      show ?thesis by (simp add: Let_def)
    qed
  qed
qed

lemma renumber_annotations_eq:
  "renumber_annotations m anns upd =
     upd @ map (\<lambda>(j, a). a\<lparr>ann_image_id := the (m (ann_image_id a)), ann_id := int j + 1\<rparr>)
             (enumerate (length upd) (filter (\<lambda>a. m (ann_image_id a) \<noteq> None) anns))"
  by (induction anns arbitrary: upd) (auto split: option.splits)

lemma filter_runs:
  assumes "\<exists>a\<in>set (annotations s). box_area a < T"
  shows "check_and_filter_small_boxes T s =
           remove_small_boxes (small_boxes T (annotations s)) T s"
proof -
  from assms have "annotations s \<noteq> []" by auto
  moreover from assms have "small_boxes T (annotations s) \<noteq> []"
    by (auto simp: small_boxes_def filter_empty_conv)
  ultimately show ?thesis by (simp add: check_and_filter_small_boxes_def)
qed

lemma images_remove_small_boxes:
  "images (remove_small_boxes (small_boxes T (annotations s)) T s) =
     map (\<lambda>(j, i). i\<lparr>img_id := int j + 1\<rparr>) (enumerate 0 (kept_images T s))"
proof -
  have "images (remove_small_boxes (small_boxes T (annotations s)) T s) =
          fst (renumber_images (image_ann_count (outliving T s) Map.empty) (images s) [] Map.empty)"
    by (simp add: remove_small_boxes_def outliving_def Let_def split: prod.splits)
  then show ?thesis
    by (simp add: fst_renumber_images kept_images_def counted_iff)
qed

lemma annotations_remove_small_boxes:
  "annotations (remove_small_boxes (small_boxes T (annotations s)) T s) =
     map (\<lambda>(j, a). a\<lparr>ann_image_id := the (old_to_new T s (ann_image_id a)), ann_id := int j + 1\<rparr>)
       (enumerate 0 (filter (\<lambda>a. old_to_new T s (ann_image_id a) \<noteq> None) (outliving T s)))"
proof -
  have "annotations (remove_small_boxes (small_boxes T (annotations s)) T s) =
          renumber_annotations (old_to_new T s) (outliving T s) []"
    by (simp add: remove_small_boxes_def outliving_def old_to_new_def Let_def split: prod.splits)
  then show ?thesis
    by (simp add: renumber_annotations_eq)
qed

lemma dom_old_to_new: "dom (old_to_new T s) = set (map img_id (kept_images T s))"
  by (simp add: old_to_new_def dom_snd_renumber_images kept_images_def counted_iff)

lemma old_to_new_kept:
  "distinct (map img_id (images s)) \<Longrightarrow> j < length (kept_images T s) \<Longrightarrow>
     old_to_new T s (img_id (kept_images T s ! j)) = Some (int j + 1)"
  using snd_renumber_images_distinct
    [of "images s" j "image_ann_count (outliving T s) Map.empty" "[]" Map.empty]
  by (simp add: old_to_new_def kept_images_def counted_iff)

lemma outliving_distinct:
  assumes d: "distinct (map ann_id (annotations s))"
  shows "outliving T s = filter (\<lambda>a. \<not> box_area a < T) (annotations s)"
proof -
  have "\<And>a. a \<in> set (annotations s) \<Longrightarrow>
          (ann_id a \<notin> set (map ann_id (small_boxes T (annotations s)))) = (\<not> box_area a < T)"
  proof -
    fix a assume a: "a \<in> set (annotations s)"
    show "(ann_id a \<notin> set (map ann_id (small_boxes T (annotations s)))) = (\<not> box_area a < T)"
    proof
      assume "ann_id a \<notin> set (map ann_id (small_boxes T (annotations s)))"
      with a show "\<not> box_area a < T" by (auto simp: small_boxes_def)
    next
      assume ns: "\<not> box_area a < T"
      show "ann_id a \<notin> set (map ann_id (small_boxes T (annotations s)))"
      proof
        assume "ann_id a \<in> set (map ann_id (small_boxes T (annotations s)))"
        then obtain b where b: "b \<in> set (annotations s)" "box_area b < T" "ann_id b = ann_id a"
          by (auto simp: small_boxes_def)
        from d have "inj_on ann_id (set (annotations s))" by (simp add: distinct_map)
        with a b have "a = b" by (auto dest: inj_onD)
        with ns b show False by simp
      qed
    qed
  qed
  then have "filter (\<lambda>a. ann_id a \<notin> set (map ann_id (small_boxes T (annotations s)))) (annotations s)
      = filter (\<lambda>a. \<not> box_area a < T) (annotations s)"
    by (intro filter_cong refl)
  then show ?thesis
    by (simp add: outliving_def valid_annotations_def)
qed

lemma map_enumerate_ids:
  "map f (map (\<lambda>(j, x). g j x) (enumerate n xs)) = map (\<lambda>(j, x). f (g j x)) (enumerate n xs)"
  by (simp add: case_prod_unfold)

lemma ids_from_one:
  "map (\<lambda>(j, x). int j + 1) (enumerate 0 xs) = map int [1..<Suc (length xs)]"
proof -
  have "map (\<lambda>(j, x). int j + 1) (enumerate 0 xs) = map ((\<lambda>j. int j + 1) \<circ> fst) (enumerate 0 xs)"
    by (simp add: case_prod_unfold comp_def)
  also have "\<dots> = map (\<lambda>j. int j + 1) (map fst (enumerate 0 xs))"
    by (simp only: map_map)
  also have "\<dots> = map (\<lambda>j. int (Suc j)) [0..<length xs]"
    by (simp add: add.commute)
  also have "\<dots> = map int (map Suc [0..<length xs])"
    by simp
  also have "\<dots> = map int [1..<Suc (length xs)]"
    by (simp only: map_Suc_upt One_nat_def)
  finally show ?thesis .
qed

text \<open>
  Claim C10. When no annotation of the store has width times height strictly below the
  threshold (the empty annotation list included), the quality check returns the store
  as it is: images, annotations, their 0-based ids and the images without annotation.
\<close>

theorem quality_check_leaves_store:
  assumes "\<forall>a\<in>set (annotations s). \<not> box_area a < area_threshold"
  shows "check_and_filter_small_boxes area_threshold s = s"
proof (cases "annotations s = []")
  case True
  then show ?thesis by (simp add: check_and_filter_small_boxes_def)
next
  case False
  from assms have "small_boxes area_threshold (annotations s) = []"
    by (simp add: small_boxes_def filter_empty_conv)
  then show ?thesis by (simp add: check_and_filter_small_boxes_def)
qed

theorem quality_check_leaves_store_witness:
  "check_and_filter_small_boxes 25 store_large = store_large
   \<and> map img_id (images (check_and_filter_small_boxes 25 store_large)) = [0, 1]
   \<and> check_and_filter_small_boxes 25 reset = reset"
proof -
  have h: "\<forall>a\<in>set (annotations store_large). \<not> box_area a < 25"
    by (simp add: store_large_def reset_def box_area_def)
  have e: "\<forall>a\<in>set (annotations reset). \<not> box_area a < 25"
    by (simp add: reset_def)
  from quality_check_leaves_store [OF h] quality_check_leaves_store [OF e]
  show ?thesis by (simp add: store_large_def reset_def)
qed

text \<open>
  Claim C2 says that after the quality filter the ids are 1, 2, ... for every store and
  threshold. On \<open>store_large\<close>, where no box is below 25, the filter returns early and
  the ids stay 0-based.
\<close>

theorem filter_renumbers_counterexample:
  "map img_id (images (check_and_filter_small_boxes 25 store_large)) = [0, 1]
   \<and> map ann_id (annotations (check_and_filter_small_boxes 25 store_large)) = [0]"
  by (simp add: check_and_filter_small_boxes_def small_boxes_def box_area_def
        store_large_def reset_def)

text \<open>
  Claim C2, amended: for every store and threshold such that at least one annotation is
  below the threshold, the images of the result are the kept images in their original
  order with ids 1, 2, ...; the annotations of the result are the outliving annotations
  (those whose image is kept) in their original order with ids 1, 2, ... and with
  \<^verbatim>\<open>image_id\<close> rewritten through the old-to-new map. The map is defined on the old ids
  of the kept images, and sends each to the kept image's new id when the old image ids
  are distinct; when the annotation ids are distinct, the outliving annotations are
  those not below the threshold.
\<close>

theorem filter_renumbers:
  assumes "\<exists>a\<in>set (annotations s). box_area a < T"
  shows "images (check_and_filter_small_boxes T s) =
           map (\<lambda>(j, i). i\<lparr>img_id := int j + 1\<rparr>) (enumerate 0 (kept_images T s))
       \<and> map img_id (images (check_and_filter_small_boxes T s)) =
           map int [1..<Suc (length (kept_images T s))]
       \<and> annotations (check_and_filter_small_boxes T s) =
           map (\<lambda>(j, a). a\<lparr>ann_image_id := the (old_to_new T s (ann_image_id a)), ann_id := int j + 1\<rparr>)
             (enumerate 0 (filter (\<lambda>a. ann_image_id a \<in> dom (old_to_new T s)) (outliving T s)))
       \<and> map ann_id (annotations (check_and_filter_small_boxes T s)) =
           map int [1..<Suc (length (filter (\<lambda>a. ann_image_id a \<in> dom (old_to_new T s)) (outliving T s)))]
       \<and> dom (old_to_new T s) = set (map img_id (kept_images T s))
       \<and> (distinct (map img_id (images s)) \<longrightarrow>
            (\<forall>j<length (kept_images T s).
               old_to_new T s (img_id (kept_images T s ! j)) = Some (int j + 1)))
       \<and> (distinct (map ann_id (annotations s)) \<longrightarrow>
            outliving T s = filter (\<lambda>a. \<not> box_area a < T) (annotations s))"
proof -
  let ?s' = "check_and_filter_small_boxes T s"
  have run: "?s' = remove_small_boxes (small_boxes T (annotations s)) T s"
    using assms by (rule filter_runs)
  have imgs: "images ?s' = map (\<lambda>(j, i). i\<lparr>img_id := int j + 1\<rparr>) (enumerate 0 (kept_images T s))"
    by (simp only: run images_remove_small_boxes)
  have "map img_id (images ?s') = map (\<lambda>(j, i). int j + 1) (enumerate 0 (kept_images T s))"
    by (simp add: imgs case_prod_unfold)
  then have img_ids: "map img_id (images ?s') = map int [1..<Suc (length (kept_images T s))]"
    by (simp only: ids_from_one)
  let ?live = "filter (\<lambda>a. ann_image_id a \<in> dom (old_to_new T s)) (outliving T s)"
  have live: "filter (\<lambda>a. old_to_new T s (ann_image_id a) \<noteq> None) (outliving T s) = ?live"
    by (simp add: dom_def)
  have anns: "annotations ?s' =
      map (\<lambda>(j, a). a\<lparr>ann_image_id := the (old_to_new T s (ann_image_id a)), ann_id := int j + 1\<rparr>)
        (enumerate 0 ?live)"
    by (simp only: run annotations_remove_small_boxes live)
  have "map ann_id (annotations ?s') = map (\<lambda>(j, a). int j + 1) (enumerate 0 ?live)"
    by (simp add: anns case_prod_unfold)
  then have ann_ids: "map ann_id (annotations ?s') = map int [1..<Suc (length ?live)]"
    by (simp only: ids_from_one)
  have m: "distinct (map img_id (images s)) \<longrightarrow>
            (\<forall>j<length (kept_images T s).
               old_to_new T s (img_id (kept_images T s ! j)) = Some (int j + 1))"
    by (simp add: old_to_new_kept)
  have o: "distinct (map ann_id (annotations s)) \<longrightarrow>
            outliving T s = filter (\<lambda>a. \<not> box_area a < T) (annotations s)"
    by (simp add: outliving_distinct)
  from imgs img_ids anns ann_ids dom_old_to_new [of T s] m o show ?thesis
    by blast
qed


theorem filter_renumbers_witness:
  "images (check_and_filter_small_boxes 25 store_small) =
     [\<lparr>img_file_name = ''b.jpg'', img_id = 1, img_width = 100, img_height = 200\<rparr>]
   \<and> annotations (check_and_filter_small_boxes 25 store_small) =
     [\<lparr>ann_id = 1, ann_image_id = 1, ann_category_id = 0, ann_bbox = (10, 10, 20, 40), ann_area = 800\<rparr>]"
proof -
  have h: "\<exists>a\<in>set (annotations store_small). box_area a < 25"
    by (simp add: store_small_def reset_def box_area_def)
  have o: "outliving 25 store_small =
      [\<lparr>ann_id = 1, ann_image_id = 1, ann_category_id = 0, ann_bbox = (10, 10, 20, 40), ann_area = 800\<rparr>]"
    by (simp add: outliving_def valid_annotations_def small_boxes_def
          box_area_def store_small_def reset_def)
  have k: "kept_images 25 store_small =
      [\<lparr>img_file_name = ''b.jpg'', img_id = 1, img_width = 100, img_height = 200\<rparr>]"
    by (simp add: kept_images_def o) (simp add: store_small_def reset_def)
  have m: "old_to_new 25 store_small = [1 \<mapsto> 1]"
    by (simp add: old_to_new_def o) (simp add: store_small_def reset_def)
  from filter_renumbers [OF h] show ?thesis
    by (simp add: o k m)
qed

text \<open>
  Claim C3 says that after the quality filter no image without annotation is left, for
  every store and threshold. On \<open>store_large\<close> the filter returns early and the image
  \<^verbatim>\<open>b.jpg\<close>, which no annotation refers to, is still there.
\<close>

theorem filter_keeps_unreferenced_counterexample:
  "images (check_and_filter_small_boxes 25 store_large) ! 1 =
     \<lparr>img_file_name = ''b.jpg'', img_id = 1, img_width = 100, img_height = 200\<rparr>
   \<and> filter (\<lambda>a. ann_image_id a = 1) (annotations (check_and_filter_small_boxes 25 store_large)) = []"
  by (simp add: check_and_filter_small_boxes_def small_boxes_def box_area_def
        store_large_def reset_def)

text \<open>
  Claim C3, amended: for every store with distinct image ids and every threshold such
  that at least one annotation is below the threshold, every image of the result is
  referred to by an annotation of the result, and the images of the result are exactly
  the images of the store that an outliving annotation refers to; an image that never
  had an annotation is among those removed.
\<close>

theorem filter_drops_unreferenced:
  assumes small: "\<exists>a\<in>set (annotations s). box_area a < T"
      and dist: "distinct (map img_id (images s))"
  shows "(\<forall>i\<in>set (images (check_and_filter_small_boxes T s)).
            \<exists>a\<in>set (annotations (check_and_filter_small_boxes T s)). ann_image_id a = img_id i)
       \<and> map img_file_name (images (check_and_filter_small_boxes T s)) =
           map img_file_name
             (filter (\<lambda>i. \<exists>a\<in>set (outliving T s). ann_image_id a = img_id i) (images s))"
proof
  let ?s' = "check_and_filter_small_boxes T s"
  let ?kept = "kept_images T s"
  let ?live = "filter (\<lambda>a. old_to_new T s (ann_image_id a) \<noteq> None) (outliving T s)"
  have run: "?s' = remove_small_boxes (small_boxes T (annotations s)) T s"
    using small by (rule filter_runs)
  have imgs: "images ?s' = map (\<lambda>(j, i). i\<lparr>img_id := int j + 1\<rparr>) (enumerate 0 ?kept)"
    by (simp only: run images_remove_small_boxes)
  have anns: "annotations ?s' =
      map (\<lambda>(j, a). a\<lparr>ann_image_id := the (old_to_new T s (ann_image_id a)), ann_id := int j + 1\<rparr>)
        (enumerate 0 ?live)"
    by (simp only: run annotations_remove_small_boxes)
  show "\<forall>i\<in>set (images ?s'). \<exists>a\<in>set (annotations ?s'). ann_image_id a = img_id i"
  proof
    fix i assume "i \<in> set (images ?s')"
    then obtain j where j: "j < length ?kept" and i: "i = (?kept ! j)\<lparr>img_id := int j + 1\<rparr>"
      by (auto simp: imgs in_set_enumerate_eq)
    from j have "?kept ! j \<in> set ?kept" by simp
    then obtain a where a: "a \<in> set (outliving T s)" "ann_image_id a = img_id (?kept ! j)"
      by (auto simp: kept_images_def)
    from dist j have new: "old_to_new T s (img_id (?kept ! j)) = Some (int j + 1)"
      by (rule old_to_new_kept)
    with a have "a \<in> set ?live" by simp
    then obtain n where n: "n < length ?live" "?live ! n = a"
      unfolding in_set_conv_nth by blast
    then have "(n, a) \<in> set (enumerate 0 ?live)"
      by (simp add: in_set_enumerate_eq)
    then have "a\<lparr>ann_image_id := the (old_to_new T s (ann_image_id a)), ann_id := int n + 1\<rparr>
        \<in> set (annotations ?s')"
      unfolding anns by force
    moreover have "ann_image_id (a\<lparr>ann_image_id := the (old_to_new T s (ann_image_id a)),
        ann_id := int n + 1\<rparr>) = img_id i"
      using a new i by simp
    ultimately show "\<exists>a\<in>set (annotations ?s'). ann_image_id a = img_id i"
      by blast
  qed
  have "map img_file_name (images ?s') = map (img_file_name \<circ> snd) (enumerate 0 ?kept)"
    by (simp add: imgs case_prod_unfold comp_def)
  also have "\<dots> = map img_file_name (map snd (enumerate 0 ?kept))"
    by (simp only: map_map)
  finally have "map img_file_name (images ?s') = map img_file_name ?kept"
    by simp
  moreover have "?kept = filter (\<lambda>i. \<exists>a\<in>set (outliving T s). ann_image_id a = img_id i) (images s)"
    unfolding kept_images_def by (rule filter_cong) (auto simp: image_iff, metis)
  ultimately show "map img_file_name (images ?s') =
      map img_file_name (filter (\<lambda>i. \<exists>a\<in>set (outliving T s). ann_image_id a = img_id i) (images s))"
    by simp
qed

theorem filter_drops_unreferenced_witness:
  "map img_file_name (images (check_and_filter_small_boxes 25 store_small)) = [''b.jpg'']
   \<and> list_all (\<lambda>i. list_ex (\<lambda>a. ann_image_id a = img_id i)
         (annotations (check_and_filter_small_boxes 25 store_small)))
       (images (check_and_filter_small_boxes 25 store_small))"
proof -
  have h: "\<exists>a\<in>set (annotations store_small). box_area a < 25"
    by (simp add: store_small_def reset_def box_area_def)
  have d: "distinct (map img_id (images store_small))"
    by (simp add: store_small_def reset_def)
  have o: "outliving 25 store_small =
      [\<lparr>ann_id = 1, ann_image_id = 1, ann_category_id = 0, ann_bbox = (10, 10, 20, 40), ann_area = 800\<rparr>]"
    by (simp add: outliving_def valid_annotations_def small_boxes_def
          box_area_def store_small_def reset_def)
  have f: "filter (\<lambda>i. \<exists>a\<in>set (outliving 25 store_small). ann_image_id a = img_id i) (images store_small)
      = [\<lparr>img_file_name = ''b.jpg'', img_id = 1, img_width = 100, img_height = 200\<rparr>]"
    by (simp add: o) (simp add: store_small_def reset_def)
  from filter_drops_unreferenced [OF h d] show ?thesis
    by (simp add: f list_all_iff list_ex_iff)
qed

section \<open>The YOLO parser\<close>

lemma yolo_bbox_finite:
  "yolo_bbox (Fin fx) (Fin fy) (Fin fw) (Fin fh) img_w img_h =
     Inr (py_trunc (fx * of_int img_w - fw * of_int img_w / 2),
          py_trunc (fy * of_int img_h - fh * of_int img_h / 2),
          py_trunc (fw * of_int img_w), py_trunc (fh * of_int img_h))"
  by (simp add: yolo_bbox_def)

text \<open>
  Claim C4 gives the bbox \<^verbatim>\<open>[40,30,20,80]\<close> for the line \<^verbatim>\<open>0 0.5 0.5 0.2 0.4\<close> on a
  100 by 200 image. The parser yields \<^verbatim>\<open>[40,60,20,80]\<close>: the centre is at
  \<open>y = 0.5 * 200 = 100\<close> and half the height is \<open>40\<close>.
\<close>

theorem yolo_scenario_counterexample:
  "map ann_bbox (annotations (fst (process_yolo_file dec_int dec_float
       [''0 0.5 0.5 0.2 0.4''] 0 100 200 Map.empty reset))) = [(40, 60, 20, 80)]
   \<and> ((40, 60, 20, 80) :: bbox) \<noteq> (40, 30, 20, 80)"
  by code_simp

text \<open>
  Claim C4, amended: parsing the line \<^verbatim>\<open>0 0.5 0.5 0.2 0.4\<close> for an image of width 100
  and height 200 produces exactly one annotation, with bbox \<^verbatim>\<open>[40,60,20,80]\<close> and area
  1600. The box of a line with finite numbers is obtained by multiplying by the image
  width and height, moving from the centre to the top-left corner and truncating
  towards zero: on a 10 by 10 image the width \<open>0.15\<close> gives 1, not 2.
\<close>

theorem yolo_scenario:
  "annotations (fst (process_yolo_file dec_int dec_float
       [''0 0.5 0.5 0.2 0.4''] 0 100 200 Map.empty reset)) =
     [\<lparr>ann_id = 0, ann_image_id = 0, ann_category_id = 0,
       ann_bbox = (40, 60, 20, 80), ann_area = 1600\<rparr>]
   \<and> snd (process_yolo_file dec_int dec_float
       [''0 0.5 0.5 0.2 0.4''] 0 100 200 Map.empty reset) = None
   \<and> yolo_bbox (Fin fx) (Fin fy) (Fin fw) (Fin fh) img_w img_h =
       Inr (py_trunc (fx * of_int img_w - fw * of_int img_w / 2),
            py_trunc (fy * of_int img_h - fh * of_int img_h / 2),
            py_trunc (fw * of_int img_w), py_trunc (fh * of_int img_h))
   \<and> yolo_line dec_int dec_float 10 10 Map.empty ''0 0.5 0.5 0.15 0.15'' =
       Inr (Some (''class_0'', (4, 4, 1, 1)))"
proof -
  have one: "annotations (fst (process_yolo_file dec_int dec_float
       [''0 0.5 0.5 0.2 0.4''] 0 100 200 Map.empty reset)) =
     [\<lparr>ann_id = 0, ann_image_id = 0, ann_category_id = 0,
       ann_bbox = (40, 60, 20, 80), ann_area = 1600\<rparr>]"
    by code_simp
  have ok: "snd (process_yolo_file dec_int dec_float
       [''0 0.5 0.5 0.2 0.4''] 0 100 200 Map.empty reset) = None"
    by code_simp
  have tr: "yolo_line dec_int dec_float 10 10 Map.empty ''0 0.5 0.5 0.15 0.15'' =
       Inr (Some (''class_0'', (4, 4, 1, 1)))"
    by code_simp
  from one ok tr yolo_bbox_finite [of fx fy fw fh img_w img_h] show ?thesis
    by blast
qed

section \<open>The deepest tag\<close>

lemma first_branch_agrees:
  "first_branch_tag n = find_deepest_tag n"
  "first_branch_of cs =
     (case filter (\<lambda>t. t \<noteq> []) (map find_deepest_tag cs) of [] \<Rightarrow> None | t # ts \<Rightarrow> Some t)"
  by (induction n and cs rule: first_branch_tag_first_branch_of.induct)
     (auto split: list.splits option.splits)

text \<open>
  Claim C7. The category name of an hk node is the tag reached by the depth-first
  descent that takes the first child branch yielding a non-empty tag: a node without
  children gives its own \<^verbatim>\<open>tagName\<close>; otherwise the first child's deepest tag is
  the answer when it is non-empty, the remaining children are tried in order when it is
  empty, and the node's own \<^verbatim>\<open>tagName\<close> is the answer when no branch yields a tag.
\<close>

theorem deepest_tag_first_branch:
  "find_deepest_tag n = first_branch_tag n
   \<and> find_deepest_tag (HkNode tag []) = tag
   \<and> find_deepest_tag (HkNode tag (c # cs)) =
       (if find_deepest_tag c \<noteq> [] then find_deepest_tag c else find_deepest_tag (HkNode tag cs))
   \<and> find_deepest_tag hk_example = ''sedan''"
proof -
  have step: "find_deepest_tag (HkNode tag (c # cs)) =
       (if find_deepest_tag c \<noteq> [] then find_deepest_tag c else find_deepest_tag (HkNode tag cs))"
    by (cases "find_deepest_tag c") (auto split: list.splits)
  have ex: "find_deepest_tag hk_example = ''sedan''"
    by (simp add: hk_example_def)
  from first_branch_agrees(1) [of n] step ex show ?thesis
    by simp
qed

section \<open>The box expansion\<close>






section \<open>Polygon lines\<close>










section \<open>The file matcher\<close>

text \<open>
  Claim C1 on two LabelMe files whose \<^verbatim>\<open>imagePath\<close> is the same image: the pair of the
  second file is appended to the matched pairs before \<^verbatim>\<open>unmatched_images.remove\<close>
  raises, and the handler then lists the file as unmatched too. The image stands in
  two matched pairs. For two YOLO files with one base name the error is not caught.
\<close>

theorem match_files_same_image:
  "match_files [''a.json'', ''b.json''] [''x.jpg''] same_image_json Labelme =
     Inr ([(''a.json'', ''x.jpg''), (''b.json'', ''x.jpg'')], [''b.json''], [])
   \<and> match_files [''.txt'', ''.txt.txt''] [''.txt.jpg''] same_image_json Yolo = Inl ValueError"
  by code_simp

section \<open>The categories\<close>

lemma first_seen_snoc:
  "first_seen (xs @ [x]) = (if x \<in> set xs then first_seen xs else first_seen xs @ [x])"
  by (simp add: first_seen_def)

lemma categories_ok_reset: "categories_ok reset"
  by (simp add: categories_ok_def reset_def category_names_def annotation_names_def
        first_seen_def cat_table_def)

lemma fst_cat_table: "map fst (cat_table s) = category_names s"
  by (simp add: cat_table_def category_names_def comp_def)

lemma cat2id_known:
  assumes ok: "categories_ok s" and k: "cat2id s name = Some cid"
  shows "0 \<le> cid \<and> cid < cat_count s \<and> name \<in> set (category_names s)
         \<and> cat_name (categories s ! nat cid) = name"
proof -
  from ok k have "map_of (cat_table s) name = Some cid"
    by (simp add: categories_ok_def)
  then have "(name, cid) \<in> set (cat_table s)"
    by (rule map_of_SomeD)
  then obtain c where c: "c \<in> set (categories s)" "cat_name c = name" "cat_id c = cid"
    by (auto simp: cat_table_def)
  then obtain i where i: "i < length (categories s)" "categories s ! i = c"
    by (auto simp: in_set_conv_nth)
  from ok have "map cat_id (categories s) ! i = map int [0..<length (categories s)] ! i"
    by (simp add: categories_ok_def)
  with i have ci: "cat_id c = int i"
    by simp
  from ok have cnt: "cat_count s = int (length (categories s))"
    unfolding categories_ok_def by blast
  from c have "name \<in> set (category_names s)"
    by (auto simp: category_names_def)
  with c i ci cnt show ?thesis
    by auto
qed

lemma cat2id_unknown:
  assumes ok: "categories_ok s" and k: "cat2id s name = None"
  shows "name \<notin> set (category_names s)"
proof -
  from ok k have "map_of (cat_table s) name = None"
    by (simp add: categories_ok_def)
  then have "name \<notin> fst ` set (cat_table s)"
    by (simp add: map_of_eq_None_iff)
  then show ?thesis
    using fst_cat_table [of s] by (metis set_map)
qed

lemma old_names_stay:
  assumes "list_all (\<lambda>a. 0 \<le> ann_category_id a \<and> ann_category_id a < int (length cs)) anns"
  shows "map (\<lambda>a. cat_name ((cs @ extra) ! nat (ann_category_id a))) anns =
         map (\<lambda>a. cat_name (cs ! nat (ann_category_id a))) anns"
  using assms by (induction anns) (auto simp: nth_append)

lemma categories_ok_add_annotation:
  assumes ok: "categories_ok s"
  shows "categories_ok (add_annotation img e s)"
proof -
  obtain name b where e: "e = (name, b)" by (cases e)
  obtain x y w h where b: "b = (x, y, w, h)" by (cases b)
  let ?N = "length (categories s)"
  from ok have cnt: "cat_count s = int ?N"
    and ids: "map cat_id (categories s) = map int [0..<?N]"
    and dist: "distinct (category_names s)"
    and tab: "cat2id s = map_of (cat_table s)"
    and rng0: "list_all (\<lambda>a. 0 \<le> ann_category_id a \<and> ann_category_id a < cat_count s) (annotations s)"
    and seen: "category_names s = first_seen (annotation_names s)"
    unfolding categories_ok_def by blast+
  from rng0 cnt
  have rng: "list_all (\<lambda>a. 0 \<le> ann_category_id a \<and> ann_category_id a < int ?N) (annotations s)"
    by simp
  show ?thesis
  proof (cases "cat2id s name")
    case None
    from cat2id_unknown [OF ok None] have new: "name \<notin> set (category_names s)" .
    let ?c = "\<lparr>cat_id = cat_count s, cat_name = name\<rparr>"
    let ?a = "\<lparr>ann_id = ann_count s, ann_image_id = img, ann_category_id = cat_count s,
               ann_bbox = b, ann_area = w * h\<rparr>"
    have s': "add_annotation img e s =
        s\<lparr>cat2id := (cat2id s)(name \<mapsto> cat_count s),
          categories := categories s @ [?c],
          cat_count := cat_count s + 1,
          annotations := annotations s @ [?a],
          ann_count := ann_count s + 1\<rparr>"
      using None by (simp add: add_annotation_def register_category_def append_annotation_def e b)
    have t: "map_of (cat_table s @ [(name, cat_count s)]) = (map_of (cat_table s))(name \<mapsto> cat_count s)"
    proof
      fix n
      show "map_of (cat_table s @ [(name, cat_count s)]) n = ((map_of (cat_table s))(name \<mapsto> cat_count s)) n"
        using None tab by (auto simp: map_of_append map_add_def split: option.splits)
    qed
    have names: "annotation_names (add_annotation img e s) = annotation_names s @ [name]"
      using old_names_stay [OF rng, of "[?c]"] cnt
      by (simp add: s' annotation_names_def nth_append)
    have set_seen: "set (annotation_names s) = set (category_names s)"
      using seen by (simp add: first_seen_def)
    show ?thesis
      unfolding categories_ok_def
    proof (intro conjI)
      show "cat_count (add_annotation img e s) = int (length (categories (add_annotation img e s)))"
        by (simp add: s' cnt)
      show "map cat_id (categories (add_annotation img e s)) =
            map int [0..<length (categories (add_annotation img e s))]"
        by (simp add: s' ids cnt)
      show "distinct (category_names (add_annotation img e s))"
        using dist new by (simp add: s' category_names_def)
      show "cat2id (add_annotation img e s) = map_of (cat_table (add_annotation img e s))"
        using t tab by (simp add: s' cat_table_def)
      show "list_all (\<lambda>a. 0 \<le> ann_category_id a \<and> ann_category_id a < cat_count (add_annotation img e s))
              (annotations (add_annotation img e s))"
        using rng cnt by (auto simp: s' list_all_iff)
      show "category_names (add_annotation img e s) = first_seen (annotation_names (add_annotation img e s))"
        using new seen set_seen
        by (simp add: names first_seen_snoc) (simp add: s' category_names_def)
    qed
  next
    case (Some cid)
    from cat2id_known [OF ok Some]
    have cid: "0 \<le> cid" "cid < cat_count s" "name \<in> set (category_names s)"
      "cat_name (categories s ! nat cid) = name"
      by simp_all
    let ?a = "\<lparr>ann_id = ann_count s, ann_image_id = img, ann_category_id = cid,
               ann_bbox = b, ann_area = w * h\<rparr>"
    have s': "add_annotation img e s =
        s\<lparr>annotations := annotations s @ [?a], ann_count := ann_count s + 1\<rparr>"
      using Some by (simp add: add_annotation_def register_category_def append_annotation_def e b)
    have names: "annotation_names (add_annotation img e s) = annotation_names s @ [name]"
      using cid by (simp add: s' annotation_names_def)
    have set_seen: "set (annotation_names s) = set (category_names s)"
      using seen by (simp add: first_seen_def)
    show ?thesis
      unfolding categories_ok_def
    proof (intro conjI)
      show "cat_count (add_annotation img e s) = int (length (categories (add_annotation img e s)))"
        by (simp add: s' cnt)
      show "map cat_id (categories (add_annotation img e s)) =
            map int [0..<length (categories (add_annotation img e s))]"
        by (simp add: s' ids)
      show "distinct (category_names (add_annotation img e s))"
        using dist by (simp add: s' category_names_def)
      show "cat2id (add_annotation img e s) = map_of (cat_table (add_annotation img e s))"
        using tab by (simp add: s' cat_table_def)
      show "list_all (\<lambda>a. 0 \<le> ann_category_id a \<and> ann_category_id a < cat_count (add_annotation img e s))
              (annotations (add_annotation img e s))"
        using rng cnt cid by (auto simp: s' list_all_iff)
      show "category_names (add_annotation img e s) = first_seen (annotation_names (add_annotation img e s))"
        using cid seen set_seen
        by (simp add: names first_seen_snoc) (simp add: s' category_names_def)
    qed
  qed
qed

lemma categories_ok_add_entries:
  "categories_ok s \<Longrightarrow> categories_ok (add_entries img es s)"
  by (induction img es s rule: add_entries.induct) (simp_all add: categories_ok_add_annotation)

lemma categories_ok_yolo:
  "categories_ok s \<Longrightarrow>
     categories_ok (fst (process_yolo_file to_int to_float lines img img_w img_h class_mapping s))"
  by (induction lines arbitrary: s)
     (auto simp: categories_ok_add_annotation split: sum.splits option.splits)

lemma categories_ok_voc: "categories_ok s \<Longrightarrow> categories_ok (process_voc_file to_float file img s)"
  by (simp add: process_voc_file_def categories_ok_add_entries split: option.splits)

lemma categories_ok_coco: "categories_ok s \<Longrightarrow> categories_ok (process_coco_single_file file img s)"
  by (simp add: process_coco_single_file_def categories_ok_add_entries split: option.splits)

lemma categories_ok_labelme: "categories_ok s \<Longrightarrow> categories_ok (process_labelme_file file img s)"
  by (simp add: process_labelme_file_def categories_ok_add_entries split: option.splits)

lemma categories_ok_hk: "categories_ok s \<Longrightarrow> categories_ok (process_hk_file file img s)"
  by (simp add: process_hk_file_def categories_ok_add_entries split: option.splits)

lemma categories_ok_cong:
  "categories s' = categories s \<Longrightarrow> annotations s' = annotations s \<Longrightarrow>
   cat2id s' = cat2id s \<Longrightarrow> cat_count s' = cat_count s \<Longrightarrow>
   categories_ok s' = categories_ok s"
  by (simp add: categories_ok_def category_names_def annotation_names_def cat_table_def)

lemma categories_ok_new_image:
  "categories_ok s \<Longrightarrow> categories_ok (s\<lparr>images := imgs, img_count := n\<rparr>)"
  using categories_ok_cong [of "s\<lparr>images := imgs, img_count := n\<rparr>" s] by simp

lemma categories_ok_file_pair:
  assumes "categories_ok s"
  shows "categories_ok (fst (process_file_pair fs class_mapping ann_file img_file s))"
proof (cases "w_image_size fs img_file")
  case None
  with assms show ?thesis by (simp add: process_file_pair_def)
next
  case (Some size)
  obtain img_w img_h where size: "size = (img_w, img_h)" by (cases size)
  let ?s1 = "s\<lparr>images := images s @
      [\<lparr>img_file_name = img_file, img_id = img_count s, img_width = img_w, img_height = img_h\<rparr>],
      img_count := img_count s + 1\<rparr>"
  from assms have s1: "categories_ok ?s1"
    by (rule categories_ok_new_image)
  show ?thesis
    using Some size s1
    by (cases "w_annotation fs ann_file")
       (simp_all add: process_file_pair_def Let_def categories_ok_yolo categories_ok_voc
          categories_ok_coco categories_ok_labelme categories_ok_hk)
qed

lemma categories_ok_pairs:
  "categories_ok s \<Longrightarrow> categories_ok (process_pairs fs class_mapping matched_pairs s)"
  by (induction fs class_mapping matched_pairs s rule: process_pairs.induct)
     (simp_all add: categories_ok_file_pair)


lemma categories_ok_unmatched:
  "categories_ok s \<Longrightarrow> categories_ok (add_unmatched_images fs unmatched_images s)"
  by (induction fs unmatched_images s rule: add_unmatched_images.induct)
     (auto simp: categories_ok_new_image split: option.splits)

text \<open>
  Claim C6. Whatever the files of the matched pairs hold, and whichever of the five
  parsers reads them, the store built from the empty store has no two categories of
  the same name, its category ids are \<open>0, ..., N - 1\<close> in the order of the list, the
  names stand in the order in which the annotations first use them, and \<^verbatim>\<open>cat2id\<close>
  sends each name of the list to the id of its category, one to one and onto the ids.
\<close>

theorem categories_first_seen:
  assumes s: "s = process_pairs fs class_mapping matched_pairs reset"
  shows "distinct (category_names s)
       \<and> map cat_id (categories s) = map int [0..<length (categories s)]
       \<and> category_names s = first_seen (annotation_names s)
       \<and> dom (cat2id s) = set (category_names s)
       \<and> (\<forall>c\<in>set (categories s). cat2id s (cat_name c) = Some (cat_id c))
       \<and> bij_betw (\<lambda>name. the (cat2id s name)) (set (category_names s))
            (set (map cat_id (categories s)))"
proof -
  have ok: "categories_ok s"
    unfolding s using categories_ok_reset by (rule categories_ok_pairs)
  then have ids: "map cat_id (categories s) = map int [0..<length (categories s)]"
    and dist: "distinct (category_names s)"
    and tab: "cat2id s = map_of (cat_table s)"
    and seen: "category_names s = first_seen (annotation_names s)"
    unfolding categories_ok_def by blast+
  have dom: "dom (cat2id s) = set (category_names s)"
    using fst_cat_table [of s] by (simp add: tab dom_map_of_conv_image_fst flip: set_map)
  have look: "cat2id s (cat_name c) = Some (cat_id c)" if "c \<in> set (categories s)" for c
  proof -
    from that have "(cat_name c, cat_id c) \<in> set (cat_table s)"
      by (auto simp: cat_table_def)
    moreover from dist have "distinct (map fst (cat_table s))"
      by (simp add: fst_cat_table)
    ultimately show ?thesis
      by (simp add: tab)
  qed
  have "distinct (map cat_id (categories s))"
    by (simp add: ids distinct_map inj_on_def)
  then have inj_id: "inj_on cat_id (set (categories s))"
    by (simp add: distinct_map)
  have inj: "inj_on (\<lambda>name. the (cat2id s name)) (set (category_names s))"
  proof (rule inj_onI)
    fix n1 n2
    assume n1: "n1 \<in> set (category_names s)" and n2: "n2 \<in> set (category_names s)"
      and eq: "the (cat2id s n1) = the (cat2id s n2)"
    from n1 obtain c1 where c1: "c1 \<in> set (categories s)" "cat_name c1 = n1"
      by (auto simp: category_names_def)
    from n2 obtain c2 where c2: "c2 \<in> set (categories s)" "cat_name c2 = n2"
      by (auto simp: category_names_def)
    from eq c1 c2 look [of c1] look [of c2] have "cat_id c1 = cat_id c2"
      by simp
    with inj_id c1 c2 have "c1 = c2"
      by (auto dest: inj_onD)
    with c1 c2 show "n1 = n2"
      by simp
  qed
  have img: "(\<lambda>name. the (cat2id s name)) ` set (category_names s) = set (map cat_id (categories s))"
    by (auto simp: category_names_def look image_iff)
  from inj img have "bij_betw (\<lambda>name. the (cat2id s name)) (set (category_names s))
      (set (map cat_id (categories s)))"
    by (simp add: bij_betw_def)
  with dist ids seen dom look show ?thesis
    by blast
qed

theorem categories_first_seen_witness:
  "category_names (process_pairs demo_world Map.empty [(''a.txt'', ''a.jpg'')] reset) =
     [''class_1'', ''class_0'']
   \<and> map cat_id (categories (process_pairs demo_world Map.empty [(''a.txt'', ''a.jpg'')] reset)) = [0, 1]
   \<and> cat2id (process_pairs demo_world Map.empty [(''a.txt'', ''a.jpg'')] reset) ''class_0'' = Some 1"
proof -
  let ?s = "process_pairs demo_world Map.empty [(''a.txt'', ''a.jpg'')] reset"
  have cats: "categories ?s = [\<lparr>cat_id = 0, cat_name = ''class_1''\<rparr>, \<lparr>cat_id = 1, cat_name = ''class_0''\<rparr>]"
    by code_simp
  have names: "annotation_names ?s = [''class_1'', ''class_0'', ''class_1'']"
    by code_simp
  note inst = categories_first_seen [OF refl, of demo_world Map.empty "[(''a.txt'', ''a.jpg'')]"]
  from inst have "category_names ?s = first_seen (annotation_names ?s)"
    by blast
  then have "category_names ?s = first_seen [''class_1'', ''class_0'', ''class_1'']"
    by (simp only: names)
  also have "\<dots> = [''class_1'', ''class_0'']"
    by code_simp
  finally have a: "category_names ?s = [''class_1'', ''class_0'']" .
  from inst have "map cat_id (categories ?s) = map int [0..<length (categories ?s)]"
    by blast
  then have "map cat_id (categories ?s) = map int [0..<length
      [\<lparr>cat_id = 0, cat_name = ''class_1''\<rparr>, \<lparr>cat_id = 1, cat_name = ''class_0''\<rparr>]]"
    by (simp only: cats)
  also have "\<dots> = [0, 1]"
    by code_simp
  finally have b: "map cat_id (categories ?s) = [0, 1]" .
  from inst have "\<forall>c\<in>set (categories ?s). cat2id ?s (cat_name c) = Some (cat_id c)"
    by blast
  then have "\<forall>c\<in>set [\<lparr>cat_id = 0, cat_name = ''class_1''\<rparr>, \<lparr>cat_id = 1, cat_name = ''class_0''\<rparr>].
      cat2id ?s (cat_name c) = Some (cat_id c)"
    by (simp only: cats)
  then have c: "cat2id ?s ''class_0'' = Some 1"
    by (simp del: process_pairs.simps)
  from a b c show ?thesis
    by blast
qed

section \<open>References from annotations to images\<close>

lemma snd_renumber_images_range:
  "snd (renumber_images cnt imgs valid m) k = Some v \<Longrightarrow>
     m k = Some v \<or> v \<in> set (map img_id (fst (renumber_images cnt imgs valid m)))"
proof (induction imgs arbitrary: valid m)
  case Nil
  then show ?case by simp
next
  case (Cons img imgs)
  show ?case
  proof (cases "cnt (img_id img) \<noteq> None")
    case False
    with Cons show ?thesis by simp
  next
    case True
    let ?v = "valid @ [img\<lparr>img_id := int (length valid) + 1\<rparr>]"
    let ?m = "m(img_id img \<mapsto> int (length valid) + 1)"
    from True Cons.prems have "snd (renumber_images cnt imgs ?v ?m) k = Some v"
      by (simp add: Let_def)
    from Cons.IH [OF this]
    have "?m k = Some v \<or> v \<in> set (map img_id (fst (renumber_images cnt imgs ?v ?m)))" .
    moreover have "int (length valid) + 1 \<in> set (map img_id (fst (renumber_images cnt imgs ?v ?m)))"
      by (simp add: fst_renumber_images)
    ultimately show ?thesis
      using True by (auto simp: Let_def split: if_splits)
  qed
qed

lemma references_ok_removed:
  "references_ok (remove_small_boxes (small_boxes T (annotations s)) T s)"
proof -
  let ?s' = "remove_small_boxes (small_boxes T (annotations s)) T s"
  have imgs: "images ?s' =
      fst (renumber_images (image_ann_count (outliving T s) Map.empty) (images s) [] Map.empty)"
    by (simp add: remove_small_boxes_def outliving_def Let_def split: prod.splits)
  have new: "v \<in> set (map img_id (images ?s'))" if "old_to_new T s k = Some v" for k v
    using snd_renumber_images_range
      [of "image_ann_count (outliving T s) Map.empty" "images s" "[]" Map.empty k v] that
    by (simp add: imgs old_to_new_def)
  have "ann_image_id a \<in> set (map img_id (images ?s'))" if "a \<in> set (annotations ?s')" for a
  proof -
    let ?live = "filter (\<lambda>a. old_to_new T s (ann_image_id a) \<noteq> None) (outliving T s)"
    from that obtain j b where jb: "(j, b) \<in> set (enumerate 0 ?live)"
      and a: "ann_image_id a = the (old_to_new T s (ann_image_id b))"
      unfolding annotations_remove_small_boxes by auto
    from jb have "snd (j, b) \<in> snd ` set (enumerate 0 ?live)"
      by (rule imageI)
    then have "snd (j, b) \<in> set (map snd (enumerate 0 ?live))"
      by (simp only: set_map)
    then have "b \<in> set ?live"
      by (simp only: map_snd_enumerate snd_conv)
    then have b: "old_to_new T s (ann_image_id b) \<noteq> None"
      by simp
    from b obtain v where "old_to_new T s (ann_image_id b) = Some v"
      by auto
    with a new show ?thesis
      by simp
  qed
  then show ?thesis
    by (simp add: references_ok_def list_all_iff)
qed

lemma references_ok_filter:
  "references_ok s \<Longrightarrow> references_ok (check_and_filter_small_boxes T s)"
  by (simp add: check_and_filter_small_boxes_def Let_def references_ok_removed)

lemma images_add_annotation: "images (add_annotation img e s) = images s"
  by (cases e)
     (auto simp: add_annotation_def register_category_def append_annotation_def
        split: option.splits)

lemma references_ok_add_annotation:
  assumes "references_ok s" and "img \<in> set (map img_id (images s))"
  shows "references_ok (add_annotation img e s)"
proof -
  obtain name x y w h where e: "e = (name, (x, y, w, h))"
    by (cases e) auto
  have "annotations (add_annotation img e s) = annotations s
      \<or> (\<exists>a. annotations (add_annotation img e s) = annotations s @ [a] \<and> ann_image_id a = img)"
    by (auto simp: e add_annotation_def register_category_def append_annotation_def
          split: option.splits)
  with assms show ?thesis
    by (auto simp: references_ok_def images_add_annotation)
qed

lemma references_ok_add_entries:
  "references_ok s \<Longrightarrow> img \<in> set (map img_id (images s)) \<Longrightarrow>
     references_ok (add_entries img es s)
     \<and> images (add_entries img es s) = images s"
  by (induction img es s rule: add_entries.induct)
     (simp_all add: references_ok_add_annotation images_add_annotation)

lemma references_ok_yolo:
  "references_ok s \<Longrightarrow> img \<in> set (map img_id (images s)) \<Longrightarrow>
     references_ok (fst (process_yolo_file to_int to_float lines img img_w img_h class_mapping s))"
proof (induction lines arbitrary: s)
  case Nil
  then show ?case by simp
next
  case (Cons line lines)
  show ?case
  proof (cases "yolo_line to_int to_float img_w img_h class_mapping line")
    case (Inl e)
    with Cons.prems show ?thesis by simp
  next
    case (Inr r)
    show ?thesis
    proof (cases r)
      case None
      with Inr Cons show ?thesis by simp
    next
      case (Some entry)
      from Cons.prems have "references_ok (add_annotation img entry s)"
        by (rule references_ok_add_annotation)
      moreover from Cons.prems have "img \<in> set (map img_id (images (add_annotation img entry s)))"
        by (simp add: images_add_annotation)
      ultimately show ?thesis
        using Inr Some Cons.IH by simp
    qed
  qed
qed

lemma references_ok_new_image:
  "references_ok s \<Longrightarrow> references_ok (s\<lparr>images := images s @ [i], img_count := n\<rparr>)"
  by (auto simp: references_ok_def list_all_iff)

lemma references_ok_file_pair:
  assumes "references_ok s"
  shows "references_ok (fst (process_file_pair fs class_mapping ann_file img_file s))"
proof (cases "w_image_size fs img_file")
  case None
  with assms show ?thesis by (simp add: process_file_pair_def)
next
  case (Some size)
  obtain img_w img_h where size: "size = (img_w, img_h)" by (cases size)
  let ?i = "\<lparr>img_file_name = img_file, img_id = img_count s, img_width = img_w, img_height = img_h\<rparr>"
  let ?s1 = "s\<lparr>images := images s @ [?i], img_count := img_count s + 1\<rparr>"
  from assms have s1: "references_ok ?s1"
    by (rule references_ok_new_image)
  have cur: "img_count s \<in> set (map img_id (images ?s1))"
    by simp
  show ?thesis
    using Some size s1 cur
    by (cases "w_annotation fs ann_file")
       (simp_all add: process_file_pair_def Let_def references_ok_yolo process_voc_file_def
          process_coco_single_file_def process_labelme_file_def process_hk_file_def
          references_ok_add_entries split: option.splits)
qed

lemma references_ok_pairs:
  "references_ok s \<Longrightarrow> references_ok (process_pairs fs class_mapping matched_pairs s)"
  by (induction fs class_mapping matched_pairs s rule: process_pairs.induct)
     (simp_all add: references_ok_file_pair)

lemma references_ok_unmatched:
  "references_ok s \<Longrightarrow> references_ok (add_unmatched_images fs unmatched_images s)"
  by (induction fs unmatched_images s rule: add_unmatched_images.induct)
     (auto simp: references_ok_new_image split: option.splits)

lemma references_ok_with_unmatched:
  "references_ok s \<Longrightarrow> references_ok (with_unmatched fs inc unmatched_images s)"
  by (simp add: with_unmatched_def references_ok_unmatched)

lemma references_ok_reset: "references_ok reset"
  by (simp add: references_ok_def reset_def)

text \<open>
  Claim C5. At every stage of the conversion pathway every annotation's \<^verbatim>\<open>image_id\<close>
  is the id of an image of the store: after each matched pair (the first \<open>k\<close> pairs,
  for every \<open>k\<close>), after the unmatched images are added or not, and after the quality
  check; so it holds of the store that \<^verbatim>\<open>convert_to_coco\<close> writes. The removal of small
  boxes establishes it by itself, for any store.
\<close>

theorem references_hold:
  "references_ok (process_pairs fs class_mapping (take k matched_pairs) reset)
   \<and> references_ok (with_unmatched fs include_unmatched_images unmatched_images
        (process_pairs fs class_mapping matched_pairs reset))
   \<and> references_ok (check_and_filter_small_boxes area_threshold
        (with_unmatched fs include_unmatched_images unmatched_images
           (process_pairs fs class_mapping matched_pairs reset)))
   \<and> (convert_matched fs class_mapping include_unmatched_images area_threshold
         (matched_pairs, unmatched_annotations, unmatched_images) = Some s
       \<longrightarrow> references_ok s)
   \<and> references_ok (remove_small_boxes (small_boxes area_threshold (annotations s')) area_threshold s')"
proof -
  have prefix: "references_ok (process_pairs fs class_mapping (take k matched_pairs) reset)"
    using references_ok_reset by (rule references_ok_pairs)
  have all: "references_ok (process_pairs fs class_mapping matched_pairs reset)"
    using references_ok_reset by (rule references_ok_pairs)
  then have added: "references_ok (with_unmatched fs include_unmatched_images unmatched_images
        (process_pairs fs class_mapping matched_pairs reset))"
    by (rule references_ok_with_unmatched)
  then have checked: "references_ok (check_and_filter_small_boxes area_threshold
        (with_unmatched fs include_unmatched_images unmatched_images
           (process_pairs fs class_mapping matched_pairs reset)))"
    by (rule references_ok_filter)
  then have written: "convert_matched fs class_mapping include_unmatched_images area_threshold
         (matched_pairs, unmatched_annotations, unmatched_images) = Some s
       \<longrightarrow> references_ok s"
    by (auto simp: convert_matched_def split: if_splits)
  from prefix added checked written references_ok_removed [of area_threshold s']
  show ?thesis
    by blast
qed

theorem references_hold_witness:
  "map ann_image_id (annotations (the (convert_matched demo_world Map.empty True 25
       ([(''a.txt'', ''a.jpg'')], [], [''c.jpg''])))) = [1, 1]
   \<and> map img_id (images (the (convert_matched demo_world Map.empty True 25
       ([(''a.txt'', ''a.jpg'')], [], [''c.jpg''])))) = [1]
   \<and> references_ok (the (convert_matched demo_world Map.empty True 25
       ([(''a.txt'', ''a.jpg'')], [], [''c.jpg''])))"
proof -
  let ?r = "convert_matched demo_world Map.empty True 25 ([(''a.txt'', ''a.jpg'')], [], [''c.jpg''])"
  have a: "map ann_image_id (annotations (the ?r)) = [1, 1]"
    by code_simp
  have i: "map img_id (images (the ?r)) = [1]"
    by code_simp
  have "?r \<noteq> None"
    by (simp add: convert_matched_def)
  then have "?r = Some (the ?r)"
    by simp
  with references_hold [of demo_world Map.empty 1 "[(''a.txt'', ''a.jpg'')]" True "[''c.jpg'']" 25
      "[]" "the ?r" reset]
  have "references_ok (the ?r)"
    by blast
  with a i show ?thesis
    by blast
qed

end
